theory Spec2Isabelle
  imports Main "HOL-Library.Word" "HOL-Library.List_Lexorder" "HOL-Library.Product_Lexorder"
begin

unbundle bit_operations_syntax

text \<open>
  A model of \<open>libopkg/pkg.c\<close> of opkg: the Debian version comparison, the comparison of
  packages and version constraints, the merge of two records of one package, the Status
  line, the invocation of maintainer scripts and the verification of a downloaded package.
  Functions are translated from the C source; what they do to the world is returned as a
  list of events.
\<close>

section \<open>C characters and strings\<close>

text \<open>
  A C string is modelled by the list of its characters before the terminating NUL.
  Reading \<open>*p\<close> at the end of the list yields NUL, as it does in C.

  Whether plain \<open>char\<close> is signed depends on the target (signed on x86, unsigned on ARM),
  so the conversion \<open>(int)x\<close> of a \<open>char\<close> takes the signedness as a parameter: a byte
  from \<open>0x80\<close> on is negative when \<open>char\<close> is signed.  Every function that converts a
  character carries this parameter, \<open>sc\<close> (true: signed).  The digits and the letters of the C locale are 7-bit
  characters, so \<open>isdigit\<close> and \<open>isalpha\<close> do not depend on it: they are those of the C
  locale (the source says ``assume ascii''), and they answer no for a byte from \<open>0x80\<close>
  on, whichever way it is read.
\<close>

definition NUL :: char where
  "NUL = CHR 0x00"

definition char_val :: "bool \<Rightarrow> char \<Rightarrow> int" where
  "char_val sc c =
     (if sc \<and> 128 \<le> (of_char c :: nat) then int (of_char c) - 256
      else int (of_char c))"

definition isdigit :: "char \<Rightarrow> bool" where
  "isdigit c = (48 \<le> (of_char c :: nat) \<and> (of_char c :: nat) \<le> 57)"

definition isalpha :: "char \<Rightarrow> bool" where
  "isalpha c =
     ((65 \<le> (of_char c :: nat) \<and> (of_char c :: nat) \<le> 90)
      \<or> (97 \<le> (of_char c :: nat) \<and> (of_char c :: nat) \<le> 122))"

definition cur :: "string \<Rightarrow> char" where
  "cur s = (case s of [] \<Rightarrow> NUL | c # _ \<Rightarrow> c)"

definition c_str :: "string \<Rightarrow> string" where
  "c_str s = takeWhile (\<lambda>c. c \<noteq> NUL) s"

section \<open>Version comparison (vercmp.c as embedded in pkg.c)\<close>

definition order :: "bool \<Rightarrow> char \<Rightarrow> int" where
  "order sc x =
     (if x = CHR ''~'' then - 1
      else if isdigit x then 0
      else if x = NUL then 0
      else if isalpha x then char_val sc x
      else 256 + char_val sc x)"

text \<open>The first inner loop of \<open>verrevcmp\<close>: \<open>Inl r\<close> is \<open>return r\<close>, \<open>Inr\<close> carries
  the two advanced pointers out of the loop.\<close>

function nondigit_loop :: "bool \<Rightarrow> string \<Rightarrow> string \<Rightarrow> int + (string \<times> string)" where
  "nondigit_loop sc val ref =
     (if (cur val \<noteq> NUL \<and> \<not> isdigit (cur val)) \<or> (cur ref \<noteq> NUL \<and> \<not> isdigit (cur ref)) then
        (let vc = order sc (cur val); rc = order sc (cur ref) in
         if vc \<noteq> rc then Inl (vc - rc)
         else nondigit_loop sc (tl val) (tl ref))
      else Inr (val, ref))"
  by pat_completeness auto
termination
  by (relation "measure (\<lambda>(sc, val, ref). length val + length ref)")
     (auto simp: cur_def NUL_def split: list.splits)

declare nondigit_loop.simps [simp del]

text \<open>\<open>while (*val == '0') val++;\<close>\<close>

definition skip_zeros :: "string \<Rightarrow> string" where
  "skip_zeros s = dropWhile (\<lambda>c. c = CHR ''0'') s"

text \<open>The loop over two digit runs of equal progress, threading \<open>first_diff\<close>.\<close>

function digit_loop :: "bool \<Rightarrow> string \<Rightarrow> string \<Rightarrow> int \<Rightarrow> string \<times> string \<times> int" where
  "digit_loop sc val ref first_diff =
     (if isdigit (cur val) \<and> isdigit (cur ref) then
        digit_loop sc (tl val) (tl ref)
          (if first_diff = 0 then char_val sc (cur val) - char_val sc (cur ref) else first_diff)
      else (val, ref, first_diff))"
  by pat_completeness auto
termination
  by (relation "measure (\<lambda>(sc, val, ref, d). length val)")
     (auto simp: cur_def NUL_def isdigit_def split: list.splits)

declare digit_loop.simps [simp del]

text \<open>The body of \<open>verrevcmp\<close> after the NULL checks: the outer \<open>while (*val || *ref)\<close>.\<close>

function verrevcmp_loop :: "bool \<Rightarrow> string \<Rightarrow> string \<Rightarrow> int" where
  "verrevcmp_loop sc val ref =
     (if cur val \<noteq> NUL \<or> cur ref \<noteq> NUL then
        (case nondigit_loop sc val ref of
           Inl r \<Rightarrow> r
         | Inr (val1, ref1) \<Rightarrow>
             (case digit_loop sc (skip_zeros val1) (skip_zeros ref1) 0 of
                (val2, ref2, first_diff) \<Rightarrow>
                  if isdigit (cur val2) then 1
                  else if isdigit (cur ref2) then - 1
                  else if first_diff \<noteq> 0 then first_diff
                  else verrevcmp_loop sc val2 ref2))
      else 0)"
  by pat_completeness auto

text \<open>Every loop only advances its pointers: the strings it leaves are what remains of
  the strings it was given.\<close>

definition advanced :: "string \<Rightarrow> string \<Rightarrow> bool" where
  "advanced s t = (\<exists>n. t = drop n s)"

lemma advanced_refl: "advanced s s"
  unfolding advanced_def by (rule exI [of _ 0]) simp

lemma advanced_trans: "advanced s t \<Longrightarrow> advanced t u \<Longrightarrow> advanced s u"
  unfolding advanced_def by (metis drop_drop)

lemma advanced_tl: "advanced s (tl s)"
  unfolding advanced_def by (rule exI [of _ 1]) (simp add: drop_Suc)

lemma advanced_length: "advanced s t \<Longrightarrow> length t \<le> length s"
  unfolding advanced_def by auto

lemma advanced_same_length: "advanced s t \<Longrightarrow> length t = length s \<Longrightarrow> t = s"
proof -
  assume "advanced s t" and len: "length t = length s"
  then obtain n where t: "t = drop n s" unfolding advanced_def by blast
  with len have "length s - n = length s" by simp
  then have "n = 0 \<or> s = []" by (cases s) auto
  with t show "t = s" by auto
qed

lemma advanced_skip_zeros: "advanced s (skip_zeros s)"
  unfolding advanced_def skip_zeros_def by (metis dropWhile_eq_drop)

lemma nondigit_loop_advanced:
  "nondigit_loop sc val ref = Inr (v, r) \<Longrightarrow> advanced val v \<and> advanced ref r"
proof (induction sc val ref rule: nondigit_loop.induct)
  case (1 sc val ref)
  show ?case
  proof (cases "(cur val \<noteq> NUL \<and> \<not> isdigit (cur val)) \<or> (cur ref \<noteq> NUL \<and> \<not> isdigit (cur ref))")
    case True
    with "1.prems" have eq: "order sc (cur val) = order sc (cur ref)"
      and rec: "nondigit_loop sc (tl val) (tl ref) = Inr (v, r)"
      by (auto simp: nondigit_loop.simps [of sc val ref] Let_def split: if_splits)
    from "1.IH" [OF True refl refl _ rec] eq
    have "advanced (tl val) v \<and> advanced (tl ref) r" by simp
    then show ?thesis
      using advanced_tl advanced_trans by blast
  next
    case False
    with "1.prems" show ?thesis
      by (auto simp: nondigit_loop.simps [of sc val ref] advanced_refl)
  qed
qed

lemma nondigit_loop_stops:
  "nondigit_loop sc val ref = Inr (v, r) \<Longrightarrow>
     (cur v = NUL \<or> isdigit (cur v)) \<and> (cur r = NUL \<or> isdigit (cur r))"
proof (induction sc val ref rule: nondigit_loop.induct)
  case (1 sc val ref)
  show ?case
  proof (cases "(cur val \<noteq> NUL \<and> \<not> isdigit (cur val)) \<or> (cur ref \<noteq> NUL \<and> \<not> isdigit (cur ref))")
    case True
    with "1.prems" have eq: "order sc (cur val) = order sc (cur ref)"
      and rec: "nondigit_loop sc (tl val) (tl ref) = Inr (v, r)"
      by (auto simp: nondigit_loop.simps [of sc val ref] Let_def split: if_splits)
    from "1.IH" [OF True refl refl _ rec] eq show ?thesis by simp
  next
    case False
    with "1.prems" show ?thesis by (auto simp: nondigit_loop.simps [of sc val ref])
  qed
qed

lemma digit_loop_advanced:
  "digit_loop sc val ref d = (v, r, d') \<Longrightarrow> advanced val v \<and> advanced ref r"
proof (induction sc val ref d rule: digit_loop.induct)
  case (1 sc val ref d)
  show ?case
  proof (cases "isdigit (cur val) \<and> isdigit (cur ref)")
    case True
    with "1.prems" have "digit_loop sc (tl val) (tl ref)
        (if d = 0 then char_val sc (cur val) - char_val sc (cur ref) else d) = (v, r, d')"
      by (simp add: digit_loop.simps [of sc val ref d])
    from "1.IH" [OF True this] show ?thesis
      using advanced_tl advanced_trans by blast
  next
    case False
    with "1.prems" show ?thesis
      by (auto simp: digit_loop.simps [of sc val ref d] advanced_refl)
  qed
qed

lemma isdigit_not_NUL: "isdigit c \<Longrightarrow> c \<noteq> NUL"
  by (auto simp: isdigit_def NUL_def)

lemma cur_not_NUL_nonempty: "cur s \<noteq> NUL \<Longrightarrow> s \<noteq> []"
  by (auto simp: cur_def)

lemma verrevcmp_round_shorter:
  assumes nd: "nondigit_loop sc val ref = Inr (v1, r1)"
    and dl: "digit_loop sc (skip_zeros v1) (skip_zeros r1) 0 = (v2, r2, d)"
    and nv: "\<not> isdigit (cur v2)" and nr: "\<not> isdigit (cur r2)"
    and ne: "cur val \<noteq> NUL \<or> cur ref \<noteq> NUL"
  shows "length v2 + length r2 < length val + length ref"
proof -
  have av: "advanced val v2" and ar: "advanced ref r2"
    using nondigit_loop_advanced [OF nd] digit_loop_advanced [OF dl]
      advanced_skip_zeros advanced_trans by blast+
  have stop: "(cur v1 = NUL \<or> isdigit (cur v1)) \<and> (cur r1 = NUL \<or> isdigit (cur r1))"
    using nondigit_loop_stops [OF nd] .
  have lv: "length v2 \<le> length val" and lr: "length r2 \<le> length ref"
    using av ar advanced_length by blast+
  have "\<not> (length v2 = length val \<and> length r2 = length ref)"
  proof
    assume both: "length v2 = length val \<and> length r2 = length ref"
    then have v2: "v2 = val" and r2: "r2 = ref"
      using av ar advanced_same_length by blast+
    have "length v2 \<le> length (skip_zeros v1)" "length (skip_zeros v1) \<le> length v1"
      "length v1 \<le> length val"
      using nondigit_loop_advanced [OF nd] digit_loop_advanced [OF dl]
        advanced_skip_zeros [of v1] advanced_length by blast+
    moreover have "length r2 \<le> length (skip_zeros r1)" "length (skip_zeros r1) \<le> length r1"
      "length r1 \<le> length ref"
      using nondigit_loop_advanced [OF nd] digit_loop_advanced [OF dl]
        advanced_skip_zeros [of r1] advanced_length by blast+
    ultimately have "length v1 = length val" "length r1 = length ref"
      using both by linarith+
    then have "v1 = val" "r1 = ref"
      using nondigit_loop_advanced [OF nd] advanced_same_length by blast+
    with stop nv nr v2 r2 have "cur val = NUL \<and> cur ref = NUL" by auto
    with ne show False by simp
  qed
  with lv lr show ?thesis by linarith
qed

termination verrevcmp_loop
proof (relation "measure (\<lambda>(sc, val, ref). length val + length ref)", goal_cases)
  case 1
  show ?case by simp
next
  case (2 sc val ref b x y xa ya xb yb)
  from 2 have nd: "nondigit_loop sc val ref = Inr (x, y)" by simp
  from 2 have dl: "digit_loop sc (skip_zeros x) (skip_zeros y) 0 = (xa, xb, yb)" by simp
  from 2 have "yb = 0" "\<not> isdigit (cur xa)" "\<not> isdigit (cur xb)"
    "cur val \<noteq> NUL \<or> cur ref \<noteq> NUL" by simp_all
  with verrevcmp_round_shorter [OF nd dl] show ?case by simp
qed

declare verrevcmp_loop.simps [simp del]

text \<open>\<open>verrevcmp\<close> itself: a NULL pointer (\<open>None\<close>) is read as the empty string.\<close>

definition verrevcmp :: "bool \<Rightarrow> string option \<Rightarrow> string option \<Rightarrow> int" where
  "verrevcmp sc val ref =
     verrevcmp_loop sc (c_str (case val of None \<Rightarrow> [] | Some s \<Rightarrow> s))
                    (c_str (case ref of None \<Rightarrow> [] | Some s \<Rightarrow> s))"

section \<open>Package records\<close>

text \<open>
  The declarations of \<open>pkg.h\<close> are read off their uses in \<open>pkg.c\<close>: a \<open>char *\<close> field is a
  \<open>string option\<close> (\<open>None\<close> is NULL), an array pointer is an optional list, an enumeration is a
  datatype, and the state flags are a bit set.  \<open>epoch\<close> and \<open>force_reinstall\<close> are C
  \<open>int\<close>s: the source prints the epoch with \<open>%d\<close> and stores both differences in an
  \<open>int\<close>.
\<close>

datatype pkg_state_want = SW_UNKNOWN | SW_INSTALL | SW_DEINSTALL | SW_PURGE

datatype pkg_state_status =
    SS_NOT_INSTALLED | SS_UNPACKED | SS_HALF_CONFIGURED | SS_INSTALLED
  | SS_HALF_INSTALLED | SS_CONFIG_FILES | SS_POST_INST_FAILED | SS_REMOVAL_FAILED

record pkg_dest =
  dest_name :: string
  root_dir :: string
  info_dir :: string

record file_info =
  file_path :: string
  file_mode :: nat
  file_link_target :: "string option"

record pkg =
  name :: "string option"
  epoch :: "32 word"
  version :: "string option"
  revision :: "string option"
  force_reinstall :: "32 word"
  src :: "string option"
  dest :: "pkg_dest option"
  architecture :: "string option"
  maintainer :: "string option"
  section_field :: "string option"
  description :: "string option"
  tags :: "string option"
  state_want :: pkg_state_want
  state_flag :: "32 word"
  state_status :: pkg_state_status
  depends_count :: nat
  pre_depends_count :: nat
  recommends_count :: nat
  suggests_count :: nat
  depends :: "string list option"
  conflicts_count :: nat
  conflicts :: "string list option"
  replaces_count :: nat
  replaces :: "string list option"
  provides_count :: nat
  provides :: "string list option"
  filename :: "string option"
  local_filename :: "string option"
  tmp_unpack_dir :: "string option"
  md5sum :: "string option"
  sha256sum :: "string option"
  size_field :: nat
  installed_size :: nat
  installed_time :: nat
  priority :: "string option"
  source :: "string option"
  conffiles :: "(string \<times> string) list"
  userfields :: "(string \<times> string) list"
  installed_files :: "file_info list option"
  installed_files_ref_cnt :: int
  essential :: int
  auto_installed :: int
  arch_priority :: int
  provided_by_hand :: int

text \<open>\<open>pkg_init\<close>: the record \<open>pkg_new\<close> hands out.\<close>

definition pkg_init :: pkg where
  "pkg_init = \<lparr>
     name = None, epoch = 0, version = None, revision = None, force_reinstall = 0,
     src = None, dest = None, architecture = None, maintainer = None,
     section_field = None, description = None, tags = None,
     state_want = SW_UNKNOWN, state_flag = 0, state_status = SS_NOT_INSTALLED,
     depends_count = 0, pre_depends_count = 0, recommends_count = 0, suggests_count = 0,
     depends = None, conflicts_count = 0, conflicts = None,
     replaces_count = 0, replaces = None, provides_count = 0, provides = None,
     filename = None, local_filename = None, tmp_unpack_dir = None,
     md5sum = None, sha256sum = None, size_field = 0, installed_size = 0,
     installed_time = 0, priority = None, source = None,
     conffiles = [], userfields = [], installed_files = None,
     installed_files_ref_cnt = 0, essential = 0, auto_installed = 0,
     arch_priority = 0, provided_by_hand = 0 \<rparr>"

section \<open>Comparing package versions\<close>

text \<open>The differences are computed in the 32-bit type and read as a signed \<open>int\<close>.\<close>

definition pkg_compare_versions_no_reinstall :: "bool \<Rightarrow> pkg \<Rightarrow> pkg \<Rightarrow> int" where
  "pkg_compare_versions_no_reinstall sc pkg ref_pkg =
     (let r = sint (epoch pkg - epoch ref_pkg) in
      if r \<noteq> 0 then r
      else
        (let r = verrevcmp sc (version pkg) (version ref_pkg) in
         if r \<noteq> 0 then r
         else verrevcmp sc (revision pkg) (revision ref_pkg)))"

definition pkg_compare_versions :: "bool \<Rightarrow> pkg \<Rightarrow> pkg \<Rightarrow> int" where
  "pkg_compare_versions sc pkg ref_pkg =
     (let r = pkg_compare_versions_no_reinstall sc pkg ref_pkg in
      if r \<noteq> 0 then r
      else sint (force_reinstall pkg - force_reinstall ref_pkg))"

datatype version_constraint =
  NONE | EARLIER | EARLIER_EQUAL | EQUAL | LATER_EQUAL | LATER

datatype message_level = ERROR | NOTICE | INFO | DEBUG

type_synonym message = "message_level \<times> string"

definition c_bool :: "bool \<Rightarrow> int" where
  "c_bool b = (if b then 1 else 0)"

text \<open>
  \<open>str_to_constraint\<close> lives in \<open>pkg_depends.c\<close>, which is not among the sources, so
  \<open>pkg_version_satisfied\<close> takes it as a parameter.  It is called with the address of
  \<open>op\<close> and may move \<open>op\<close> forward, so the parameter returns the kind of constraint
  together with \<open>op\<close> as the call leaves it.  The result pairs the returned \<open>int\<close> with the
  messages \<open>pkg_version_satisfied\<close> logs itself; the \<open>NONE\<close> case logs an error, leaves the
  \<open>switch\<close> and reaches the final \<open>return 0\<close>.
\<close>

definition pkg_version_satisfied ::
  "bool \<Rightarrow> (string \<Rightarrow> version_constraint \<times> string) \<Rightarrow> pkg \<Rightarrow> pkg \<Rightarrow> string
     \<Rightarrow> int \<times> message list" where
  "pkg_version_satisfied sc str_to_constraint it ref op =
     (let r = pkg_compare_versions sc it ref;
          (constraint, op') = str_to_constraint op
      in case constraint of
           EARLIER_EQUAL \<Rightarrow> (c_bool (r \<le> 0), [])
         | LATER_EQUAL \<Rightarrow> (c_bool (r \<ge> 0), [])
         | EARLIER \<Rightarrow> (c_bool (r < 0), [])
         | LATER \<Rightarrow> (c_bool (r > 0), [])
         | EQUAL \<Rightarrow> (c_bool (r = 0), [])
         | NONE \<Rightarrow> (0, [(ERROR, ''Unknown operator: '' @ op' @ ''.'' @ [CHR 0x0A])]))"

text \<open>
  Modelled from the spec: \<open>str_to_constraint\<close> of \<open>pkg_depends.c\<close>, which is not among
  the sources.  The operators are \<open><<\<close>, \<open><=\<close>, \<open>=\<close>, \<open>>=\<close>, \<open>>>\<close>, with \<open><\<close> and \<open>>\<close>
  accepted as aliases of \<open><=\<close> and \<open>>=\<close>; the operator is consumed with the white space
  after it, and any other string is the kind \<open>NONE\<close> and is left where it is.
\<close>

definition isspace :: "char \<Rightarrow> bool" where
  "isspace c = (c = CHR '' '' \<or> (9 \<le> (of_char c :: nat) \<and> (of_char c :: nat) \<le> 13))"

definition after_operator :: "nat \<Rightarrow> string \<Rightarrow> string" where
  "after_operator n s = dropWhile isspace (drop n s)"

definition str_to_constraint :: "string \<Rightarrow> version_constraint \<times> string" where
  "str_to_constraint s =
     (if take 2 s = ''<<'' then (EARLIER, after_operator 2 s)
      else if take 2 s = ''<='' then (EARLIER_EQUAL, after_operator 2 s)
      else if take 2 s = ''>='' then (LATER_EQUAL, after_operator 2 s)
      else if take 2 s = ''>>'' then (LATER, after_operator 2 s)
      else if take 1 s = ''='' then (EQUAL, after_operator 1 s)
      else if take 1 s = ''<'' then (EARLIER_EQUAL, after_operator 1 s)
      else if take 1 s = ''>'' then (LATER_EQUAL, after_operator 1 s)
      else (NONE, s))"

section \<open>The comparison in the words of the specification\<close>

text \<open>
  A second description of \<open>verrevcmp\<close>, written from the specification and not from the
  code, to compare the code with: a string is a sequence of rounds, each a run of
  non-digits followed by a run of digits.  Non-digit runs are compared character by
  character by \<open>order\<close>, the end of a run counting as 0; digit runs are stripped of their
  leading zeros, then the longer one wins, and runs of equal length are decided by the
  first digit that differs.
\<close>

definition nondigit_run :: "string \<Rightarrow> string" where
  "nondigit_run s = takeWhile (\<lambda>c. \<not> isdigit c) s"

definition after_nondigits :: "string \<Rightarrow> string" where
  "after_nondigits s = dropWhile (\<lambda>c. \<not> isdigit c) s"

definition digit_run :: "string \<Rightarrow> string" where
  "digit_run s = takeWhile isdigit s"

definition after_digits :: "string \<Rightarrow> string" where
  "after_digits s = dropWhile isdigit s"

fun run_cmp :: "bool \<Rightarrow> string \<Rightarrow> string \<Rightarrow> int" where
  "run_cmp sc [] [] = 0"
| "run_cmp sc (x # xs) [] = order sc x - 0"
| "run_cmp sc [] (y # ys) = 0 - order sc y"
| "run_cmp sc (x # xs) (y # ys) =
     (if order sc x \<noteq> order sc y then order sc x - order sc y else run_cmp sc xs ys)"

fun first_diff_cmp :: "bool \<Rightarrow> string \<Rightarrow> string \<Rightarrow> int" where
  "first_diff_cmp sc (x # xs) (y # ys) =
     (if x \<noteq> y then char_val sc x - char_val sc y else first_diff_cmp sc xs ys)"
| "first_diff_cmp sc _ _ = 0"

definition digit_cmp :: "bool \<Rightarrow> string \<Rightarrow> string \<Rightarrow> int" where
  "digit_cmp sc d e =
     (let a = dropWhile (\<lambda>c. c = CHR ''0'') d; b = dropWhile (\<lambda>c. c = CHR ''0'') e in
      if length a > length b then 1
      else if length a < length b then - 1
      else first_diff_cmp sc a b)"

function verrevcmp_spec :: "bool \<Rightarrow> string \<Rightarrow> string \<Rightarrow> int" where
  "verrevcmp_spec sc a b =
     (if a = [] \<and> b = [] then 0
      else
        (let c = run_cmp sc (nondigit_run a) (nondigit_run b) in
         if c \<noteq> 0 then c
         else
           (let d = digit_cmp sc (digit_run (after_nondigits a)) (digit_run (after_nondigits b)) in
            if d \<noteq> 0 then d
            else verrevcmp_spec sc (after_digits (after_nondigits a))
                                (after_digits (after_nondigits b)))))"
  by pat_completeness auto

lemma round_rest_le: "length (after_digits (after_nondigits s)) \<le> length s"
  unfolding after_digits_def after_nondigits_def
  by (meson length_dropWhile_le order_trans)

lemma round_rest_less: "s \<noteq> [] \<Longrightarrow> length (after_digits (after_nondigits s)) < length s"
proof (cases s)
  case Nil
  assume "s \<noteq> []"
  with Nil show ?thesis by simp
next
  case (Cons x xs)
  have le: "length (after_digits (after_nondigits xs)) \<le> length xs"
    by (rule round_rest_le)
  have "length (dropWhile isdigit xs) \<le> length xs"
    by (rule length_dropWhile_le)
  with le Cons show ?thesis
    by (cases "isdigit x") (simp_all add: after_digits_def after_nondigits_def)
qed

termination verrevcmp_spec
proof (relation "measure (\<lambda>(sc, a, b). length a + length b)", goal_cases)
  case 1
  show ?case by simp
next
  case (2 sc a b c d)
  then have "a \<noteq> [] \<or> b \<noteq> []" by simp
  then show ?case
    using round_rest_less [of a] round_rest_less [of b] round_rest_le [of a] round_rest_le [of b]
    by auto
qed

declare verrevcmp_spec.simps [simp del]

text \<open>The condition of the first inner loop, for one of the two strings.\<close>

definition at_nondigit :: "string \<Rightarrow> bool" where
  "at_nondigit s = (cur s \<noteq> NUL \<and> \<not> isdigit (cur s))"

text \<open>The string a possibly NULL pointer stands for.\<close>

definition the_str :: "string option \<Rightarrow> string" where
  "the_str p = c_str (case p of None \<Rightarrow> [] | Some s \<Rightarrow> s)"

text \<open>
  One round of the comparison, and the sort key of a round: the \<open>order\<close> values of the
  non-digit run closed by a 0, then the length and the digits of the digit run without its
  leading zeros.  Keys are compared lexicographically.
\<close>

definition round_cmp :: "bool \<Rightarrow> string \<Rightarrow> string \<Rightarrow> int" where
  "round_cmp sc a b =
     (let c = run_cmp sc (nondigit_run a) (nondigit_run b) in
      if c \<noteq> 0 then c
      else digit_cmp sc (digit_run (after_nondigits a)) (digit_run (after_nondigits b)))"

definition round_key :: "bool \<Rightarrow> string \<Rightarrow> int list \<times> nat \<times> int list" where
  "round_key sc s =
     (let d = dropWhile (\<lambda>c. c = CHR ''0'') (digit_run (after_nondigits s)) in
      (map (order sc) (nondigit_run s) @ [0], length d, map (char_val sc) d))"

section \<open>Configuration and the world outside\<close>

text \<open>
  The fields of \<open>opkg_config\<close> that \<open>pkg.c\<close> reads in the functions below; the flags are
  used as truth values only.
\<close>

record opkg_conf =
  verbose_status_file :: bool
  noaction :: bool
  offline_root :: "string option"
  force_postinstall :: bool
  force_checksum :: bool
  check_pkg_signature :: bool
  default_dest :: pkg_dest

text \<open>
  What a call leaves behind besides its return value: messages, and the calls that touch
  the file system or start a process, in the order they are made.
\<close>

datatype event =
    Log message_level string
  | Setenv string string
  | Xsystem "string list"
  | Stat "string option"
  | Verify_sha256sum "string option" string
  | Verify_md5sum "string option" string
  | Download_signature
  | Verify_signature "string option" string
  | Unlink "string option"

section \<open>Maintainer scripts\<close>

text \<open>\<open>printf\<close> prints a NULL string as \<open>(null)\<close>.\<close>

definition str_or_null :: "string option \<Rightarrow> string" where
  "str_or_null p = (case p of None \<Rightarrow> ''(null)'' | Some s \<Rightarrow> s)"

text \<open>
  The conversions \<open>%lu\<close> and \<open>%d\<close>, \<open>%lld\<close> of \<open>printf\<close>: a number in decimal, without
  leading zeros, with a minus sign when it is negative.
\<close>

function show_nat :: "nat \<Rightarrow> string" where
  "show_nat n =
     (if n < 10 then [char_of (48 + n)]
      else show_nat (n div 10) @ [char_of (48 + n mod 10)])"
  by pat_completeness auto

termination
  by (relation "measure (\<lambda>n. n)") auto

declare show_nat.simps [simp del]

definition show_int :: "int \<Rightarrow> string" where
  "show_int i = (if i < 0 then CHR ''-'' # show_nat (nat (- i)) else show_nat (nat i))"

text \<open>
  The path \<open>pkg_run_script\<close> builds: installed packages have their scripts in the
  destination's \<open>info_dir\<close>, the others in \<open>tmp_unpack_dir\<close>.  \<open>Inl\<close> is the internal error
  logged when the directory is not known.
\<close>

definition script_path :: "pkg \<Rightarrow> string \<Rightarrow> string + string" where
  "script_path pkg script =
     (if state_status pkg = SS_INSTALLED \<or> state_status pkg = SS_UNPACKED
         \<or> state_status pkg = SS_HALF_INSTALLED then
        (case dest pkg of
           None \<Rightarrow>
             Inl (''Internal error: '' @ str_or_null (name pkg) @ '' has a NULL dest.''
                    @ [CHR 0x0A])
         | Some d \<Rightarrow> Inr (info_dir d @ ''/'' @ str_or_null (name pkg) @ ''.'' @ script))
      else
        (case tmp_unpack_dir pkg of
           None \<Rightarrow>
             Inl (''Internal error: '' @ str_or_null (name pkg) @ '' has a NULL tmp_unpack_dir.''
                    @ [CHR 0x0A])
         | Some t \<Rightarrow> Inr (t @ ''/'' @ script)))"

text \<open>
  \<open>pkg_run_script\<close>, given which files exist and what \<open>xsystem\<close> returns for a command
  line.
\<close>

definition pkg_run_script ::
  "opkg_conf \<Rightarrow> (string \<Rightarrow> bool) \<Rightarrow> (string list \<Rightarrow> int) \<Rightarrow> pkg \<Rightarrow> string \<Rightarrow> string
     \<Rightarrow> int \<times> event list" where
  "pkg_run_script conf file_exists xsystem pkg script args =
     (if noaction conf then (0, [])
      else if offline_root conf \<noteq> None \<and> \<not> force_postinstall conf then
        (0, [Log INFO (''Offline root mode: not running '' @ str_or_null (name pkg)
                        @ ''.'' @ script @ ''.'' @ [CHR 0x0A])])
      else
        (case script_path pkg script of
           Inl msg \<Rightarrow> (- 1, [Log ERROR msg])
         | Inr path \<Rightarrow>
             (let started =
                    [Log INFO (''Running script '' @ path @ ''.'' @ [CHR 0x0A]),
                     Setenv ''PKG_ROOT''
                       (case dest pkg of
                          Some d \<Rightarrow> root_dir d
                        | None \<Rightarrow> root_dir (default_dest conf))]
              in if \<not> file_exists path then (0, started)
                 else
                   (let cmd = path @ '' '' @ args;
                        argv = [''/bin/sh'', ''-c'', cmd];
                        err = xsystem argv
                    in if err \<noteq> 0 then
                         (err, started @ [Xsystem argv]
                            @ (if offline_root conf = None then
                                 [Log ERROR (''package '' @ [CHR 0x22]
                                    @ str_or_null (name pkg) @ [CHR 0x22] @ '' '' @ script
                                    @ '' script returned status '' @ show_int err @ ''.''
                                    @ [CHR 0x0A])]
                               else []))
                       else (0, started @ [Xsystem argv])))))"

definition is_xsystem :: "event \<Rightarrow> bool" where
  "is_xsystem e = (case e of Xsystem _ \<Rightarrow> True | _ \<Rightarrow> False)"

definition is_error_log :: "event \<Rightarrow> bool" where
  "is_error_log e = (case e of Log ERROR _ \<Rightarrow> True | _ \<Rightarrow> False)"

section \<open>State flags and the Status line\<close>

text \<open>
  The values of the \<open>SF_\<close> constants and the macros \<open>SF_NONVOLATILE_FLAGS\<close> and
  \<open>PKG_MINIMUM_FIELD_NAME_LEN\<close> are declared in \<open>pkg.h\<close>, which is not among the sources:
  they are parameters of the functions that use them.
\<close>

record pkg_h =
  SF_OK :: "32 word"
  SF_REINSTREQ :: "32 word"
  SF_HOLD :: "32 word"
  SF_REPLACE :: "32 word"
  SF_NOPRUNE :: "32 word"
  SF_PREFER :: "32 word"
  SF_OBSOLETE :: "32 word"
  SF_USER :: "32 word"
  SF_NONVOLATILE_FLAGS :: "32 word"
  PKG_MINIMUM_FIELD_NAME_LEN :: nat

definition pkg_state_flag_map :: "pkg_h \<Rightarrow> (32 word \<times> string) list" where
  "pkg_state_flag_map h =
     [(SF_OK h, ''ok''), (SF_REINSTREQ h, ''reinstreq''), (SF_HOLD h, ''hold''),
      (SF_REPLACE h, ''replace''), (SF_NOPRUNE h, ''noprune''), (SF_PREFER h, ''prefer''),
      (SF_OBSOLETE h, ''obsolete''), (SF_USER h, ''user'')]"

fun pkg_state_want_to_str :: "pkg_state_want \<Rightarrow> string" where
  "pkg_state_want_to_str SW_UNKNOWN = ''unknown''"
| "pkg_state_want_to_str SW_INSTALL = ''install''"
| "pkg_state_want_to_str SW_DEINSTALL = ''deinstall''"
| "pkg_state_want_to_str SW_PURGE = ''purge''"

fun pkg_state_status_to_str :: "pkg_state_status \<Rightarrow> string" where
  "pkg_state_status_to_str SS_NOT_INSTALLED = ''not-installed''"
| "pkg_state_status_to_str SS_UNPACKED = ''unpacked''"
| "pkg_state_status_to_str SS_HALF_CONFIGURED = ''half-configured''"
| "pkg_state_status_to_str SS_INSTALLED = ''installed''"
| "pkg_state_status_to_str SS_HALF_INSTALLED = ''half-installed''"
| "pkg_state_status_to_str SS_CONFIG_FILES = ''config-files''"
| "pkg_state_status_to_str SS_POST_INST_FAILED = ''post-inst-failed''"
| "pkg_state_status_to_str SS_REMOVAL_FAILED = ''removal-failed''"

datatype fault = Out_of_bounds_write

text \<open>
  \<open>pkg_state_flag_to_str\<close>: the names of the table whose value meets the masked flags,
  each followed by a comma, and the last comma squashed.  When no name was appended,
  \<open>str[len - 1]\<close> with \<open>len = 0\<close> writes outside the buffer.
\<close>

definition pkg_state_flag_to_str :: "pkg_h \<Rightarrow> 32 word \<Rightarrow> fault + string" where
  "pkg_state_flag_to_str h sf0 =
     (let sf = sf0 AND SF_NONVOLATILE_FLAGS h in
      if sf = 0 then Inr ''ok''
      else
        (let str = concat (map (\<lambda>(v, s). if sf AND v \<noteq> 0 then s @ '','' else [])
                             (pkg_state_flag_map h))
         in if length str = 0 then Inl Out_of_bounds_write
            else Inr (butlast str)))"

fun starts_with :: "string \<Rightarrow> string \<Rightarrow> bool" where
  "starts_with _ [] = True"
| "starts_with [] (_ # _) = False"
| "starts_with (x # xs) (y # ys) = (x = y \<and> starts_with xs ys)"

fun strstr :: "string \<Rightarrow> string \<Rightarrow> bool" where
  "strstr [] needle = (needle = [])"
| "strstr (x # xs) needle = (starts_with (x # xs) needle \<or> strstr xs needle)"

definition should_include_field :: "string option \<Rightarrow> string option \<Rightarrow> bool" where
  "should_include_field field fields_filter =
     (case field of
        None \<Rightarrow> False
      | Some f \<Rightarrow> (case fields_filter of None \<Rightarrow> True | Some flt \<Rightarrow> strstr flt f))"

text \<open>
  \<open>pkg_formatted_field\<close> called with the field name \<open>Status\<close>: the text written to the
  stream and the messages logged.  The other arms of the \<open>switch\<close> are not modelled.
\<close>

definition pkg_formatted_field_Status ::
  "pkg_h \<Rightarrow> pkg \<Rightarrow> string option \<Rightarrow> fault + (string \<times> event list)" where
  "pkg_formatted_field_Status h pkg fields_filter =
     (if \<not> should_include_field (Some ''Status'') fields_filter then Inr ([], [])
      else if length ''Status'' < PKG_MINIMUM_FIELD_NAME_LEN h then
        Inr ([], [Log ERROR (''Internal error: field=Status'' @ [CHR 0x0A])])
      else
        (case pkg_state_flag_to_str h (state_flag pkg) of
           Inl f \<Rightarrow> Inl f
         | Inr pflag \<Rightarrow>
             Inr (''Status: '' @ pkg_state_want_to_str (state_want pkg) @ '' '' @ pflag @ '' ''
                    @ pkg_state_status_to_str (state_status pkg) @ [CHR 0x0A],
                  [])))"

text \<open>
  In the words of the specification: the names of the flags that are set and
  non-volatile, in the order of the table, and a list joined by commas.
\<close>

definition set_nonvolatile_flags :: "pkg_h \<Rightarrow> 32 word \<Rightarrow> string list" where
  "set_nonvolatile_flags h sf =
     map snd (filter (\<lambda>(v, s). (sf AND SF_NONVOLATILE_FLAGS h) AND v \<noteq> 0) (pkg_state_flag_map h))"

text \<open>All bits that belong to some flag of the table.\<close>

definition table_mask :: "pkg_h \<Rightarrow> 32 word" where
  "table_mask h = foldr (OR) (map fst (pkg_state_flag_map h)) 0"

fun join_commas :: "string list \<Rightarrow> string" where
  "join_commas [] = []"
| "join_commas [x] = x"
| "join_commas (x # y # ys) = x @ '','' @ join_commas (y # ys)"

section \<open>Verifying a downloaded package\<close>

text \<open>
  \<open>pkg_verify\<close> asks the world five things: what \<open>stat\<close> says about the local file (its
  size, that it does not exist, or the text of \<open>strerror (errno)\<close> for another error), what
  the two checksum verifiers and the signature verifier return (0 is success), which
  signature file \<open>pkg_download_signature\<close> delivers (\<open>None\<close> is NULL), and which files exist.
  Whether \<open>HAVE_SHA256\<close> is defined is decided when opkg is configured
  (\<open>--enable-sha256\<close>, off by default), so it is a parameter.
\<close>

datatype stat_result = Stat_ok int | Stat_ENOENT | Stat_error string

record verify_env =
  env_stat :: "string option \<Rightarrow> stat_result"
  env_verify_sha256sum :: "string option \<Rightarrow> string \<Rightarrow> int"
  env_verify_md5sum :: "string option \<Rightarrow> string \<Rightarrow> int"
  env_download_signature :: "pkg \<Rightarrow> string option"
  env_verify_signature :: "string option \<Rightarrow> string \<Rightarrow> int"
  env_file_exists :: "string \<Rightarrow> bool"

text \<open>The label \<open>fail:\<close>, reached with \<open>err\<close> and \<open>local_sig_filename\<close> as they stand.\<close>

definition pkg_verify_fail ::
  "opkg_conf \<Rightarrow> verify_env \<Rightarrow> pkg \<Rightarrow> string option \<Rightarrow> int \<Rightarrow> event list
     \<Rightarrow> int \<times> event list" where
  "pkg_verify_fail conf env pkg local_sig_filename err trace =
     (if \<not> force_checksum conf then
        (err,
         trace
           @ [Log NOTICE (''Removing corrupt package file ''
                @ str_or_null (local_filename pkg) @ ''.'' @ [CHR 0x0A]),
              Unlink (local_filename pkg)]
           @ (case local_sig_filename of
                None \<Rightarrow> []
              | Some s \<Rightarrow>
                  if env_file_exists env s then
                    [Log NOTICE (''Removing unmatched signature file '' @ s @ ''.''
                       @ [CHR 0x0A]),
                     Unlink (Some s)]
                  else []))
      else
        (0, trace @ [Log NOTICE (''Ignored '' @ str_or_null (local_filename pkg)
                       @ '' checksum mismatch.'' @ [CHR 0x0A])]))"

text \<open>The signature stage, from \<open>if (opkg_config->check_pkg_signature)\<close> to \<open>return 0\<close>.\<close>

definition pkg_verify_signature_stage ::
  "opkg_conf \<Rightarrow> verify_env \<Rightarrow> pkg \<Rightarrow> event list \<Rightarrow> int \<times> event list" where
  "pkg_verify_signature_stage conf env pkg trace =
     (if check_pkg_signature conf then
        (case env_download_signature env pkg of
           None \<Rightarrow> pkg_verify_fail conf env pkg None (- 1) (trace @ [Download_signature])
         | Some s \<Rightarrow>
             (let err = env_verify_signature env (local_filename pkg) s;
                  trace' = trace @ [Download_signature, Verify_signature (local_filename pkg) s]
              in if err \<noteq> 0 then pkg_verify_fail conf env pkg (Some s) err trace'
                 else
                   (0, trace' @ [Log DEBUG (''Signature verification passed for ''
                          @ str_or_null (local_filename pkg) @ ''.'' @ [CHR 0x0A])])))
      else (0, trace))"

text \<open>The message of the arm that finds no checksum it can check.\<close>

definition checksum_missing_msg :: string where
  "checksum_missing_msg =
     ''Checksum is either missing or unsupported on opkg. To bypass verification ''
       @ ''use --force-checksum. Aborting '' @ [CHR 0x0A]"

definition pkg_verify :: "bool \<Rightarrow> opkg_conf \<Rightarrow> verify_env \<Rightarrow> pkg \<Rightarrow> int \<times> event list" where
  "pkg_verify have_sha256 conf env pkg =
     (case env_stat env (local_filename pkg) of
        Stat_ENOENT \<Rightarrow> (1, [Stat (local_filename pkg)])
      | Stat_error strerror \<Rightarrow>
          pkg_verify_fail conf env pkg None (- 1)
            [Stat (local_filename pkg),
             Log ERROR (''Failed to stat '' @ str_or_null (local_filename pkg) @ '': ''
               @ strerror @ [CHR 0x0A])]
      | Stat_ok st_size \<Rightarrow>
          if st_size < 1 \<or> st_size \<noteq> int (size_field pkg) then
            pkg_verify_fail conf env pkg None (- 1)
              [Stat (local_filename pkg),
               Log ERROR (''File size mismatch: '' @ str_or_null (local_filename pkg)
                 @ '' is '' @ show_int st_size @ '' bytes, expecting ''
                 @ show_nat (size_field pkg) @ '' bytes'' @ [CHR 0x0A])]
          else if have_sha256 \<and> sha256sum pkg \<noteq> None then
            (let err = env_verify_sha256sum env (local_filename pkg) (the (sha256sum pkg));
                 trace = [Stat (local_filename pkg),
                          Verify_sha256sum (local_filename pkg) (the (sha256sum pkg))]
             in if err \<noteq> 0 then pkg_verify_fail conf env pkg None err trace
                else pkg_verify_signature_stage conf env pkg trace)
          else if md5sum pkg \<noteq> None then
            (let err = env_verify_md5sum env (local_filename pkg) (the (md5sum pkg));
                 trace = [Stat (local_filename pkg),
                          Verify_md5sum (local_filename pkg) (the (md5sum pkg))]
             in if err \<noteq> 0 then pkg_verify_fail conf env pkg None err trace
                else pkg_verify_signature_stage conf env pkg trace)
          else if \<not> force_checksum conf then
            (- 1, [Stat (local_filename pkg), Log ERROR checksum_missing_msg])
          else pkg_verify_signature_stage conf env pkg [Stat (local_filename pkg)])"

text \<open>The stages in the words of the specification.\<close>

definition size_stage_passes :: "verify_env \<Rightarrow> pkg \<Rightarrow> bool" where
  "size_stage_passes env pkg =
     (case env_stat env (local_filename pkg) of
        Stat_ok st_size \<Rightarrow> 1 \<le> st_size \<and> st_size = int (size_field pkg)
      | _ \<Rightarrow> False)"

datatype checksum_outcome = Checksum_passes | Checksum_fails | Checksum_missing

definition checksum_stage :: "bool \<Rightarrow> verify_env \<Rightarrow> pkg \<Rightarrow> checksum_outcome" where
  "checksum_stage have_sha256 env pkg =
     (if have_sha256 \<and> sha256sum pkg \<noteq> None then
        (if env_verify_sha256sum env (local_filename pkg) (the (sha256sum pkg)) = 0
         then Checksum_passes else Checksum_fails)
      else if md5sum pkg \<noteq> None then
        (if env_verify_md5sum env (local_filename pkg) (the (md5sum pkg)) = 0
         then Checksum_passes else Checksum_fails)
      else Checksum_missing)"

definition signature_stage_passes :: "verify_env \<Rightarrow> pkg \<Rightarrow> bool" where
  "signature_stage_passes env pkg =
     (case env_download_signature env pkg of
        None \<Rightarrow> False
      | Some s \<Rightarrow> env_verify_signature env (local_filename pkg) s = 0)"

text \<open>The position of an operation in the sequence of stages; messages have none.\<close>

fun stage :: "event \<Rightarrow> nat option" where
  "stage (Stat _) = Some 1"
| "stage (Verify_sha256sum _ _) = Some 2"
| "stage (Verify_md5sum _ _) = Some 2"
| "stage Download_signature = Some 3"
| "stage (Verify_signature _ _) = Some 4"
| "stage (Unlink _) = Some 5"
| "stage _ = None"

definition stages :: "event list \<Rightarrow> nat list" where
  "stages trace = concat (map (\<lambda>e. case stage e of None \<Rightarrow> [] | Some n \<Rightarrow> [n]) trace)"

definition is_unlink :: "event \<Rightarrow> bool" where
  "is_unlink e = (case e of Unlink _ \<Rightarrow> True | _ \<Rightarrow> False)"

section \<open>Merging two records of one package\<close>

text \<open>
  The body of \<open>pkg_merge\<close> for two different objects, statement by statement; it changes
  both records.  \<open>xstrdup\<close> copies a string and hands NULL through; \<open>list_splice_init\<close> moves
  the entries of the new list into the (empty) old one and leaves the new list empty.
\<close>

definition pkg_merge_body :: "opkg_conf \<Rightarrow> pkg \<Rightarrow> pkg \<Rightarrow> pkg \<times> pkg" where
  "pkg_merge_body conf oldpkg0 newpkg0 =
     (let oldpkg = oldpkg0; newpkg = newpkg0;
          oldpkg = (if auto_installed oldpkg = 0
                    then oldpkg\<lparr>auto_installed := auto_installed newpkg\<rparr> else oldpkg);
          oldpkg = (if src oldpkg = None then oldpkg\<lparr>src := src newpkg\<rparr> else oldpkg);
          oldpkg = (if dest oldpkg = None then oldpkg\<lparr>dest := dest newpkg\<rparr> else oldpkg);
          oldpkg = (if architecture oldpkg = None
                    then oldpkg\<lparr>architecture := architecture newpkg\<rparr> else oldpkg);
          oldpkg = (if arch_priority oldpkg = 0
                    then oldpkg\<lparr>arch_priority := arch_priority newpkg\<rparr> else oldpkg);
          oldpkg = (if section_field oldpkg = None
                    then oldpkg\<lparr>section_field := section_field newpkg\<rparr> else oldpkg);
          oldpkg = (if maintainer oldpkg = None
                    then oldpkg\<lparr>maintainer := maintainer newpkg\<rparr> else oldpkg);
          oldpkg = (if description oldpkg = None
                    then oldpkg\<lparr>description := description newpkg\<rparr> else oldpkg);
          (oldpkg, newpkg) =
            (if depends_count oldpkg = 0 \<and> pre_depends_count oldpkg = 0
                \<and> recommends_count oldpkg = 0 \<and> suggests_count oldpkg = 0
             then (oldpkg\<lparr>depends_count := depends_count newpkg, depends := depends newpkg,
                            pre_depends_count := pre_depends_count newpkg,
                            recommends_count := recommends_count newpkg,
                            suggests_count := suggests_count newpkg\<rparr>,
                   newpkg\<lparr>depends_count := 0, depends := None, pre_depends_count := 0,
                            recommends_count := 0, suggests_count := 0\<rparr>)
             else (oldpkg, newpkg));
          (oldpkg, newpkg) =
            (if provides_count oldpkg \<le> 1
             then (oldpkg\<lparr>provides_count := provides_count newpkg, provides := provides newpkg\<rparr>,
                   newpkg\<lparr>provides_count := 0, provides := None\<rparr>)
             else (oldpkg, newpkg));
          (oldpkg, newpkg) =
            (if conflicts_count oldpkg = 0
             then (oldpkg\<lparr>conflicts_count := conflicts_count newpkg, conflicts := conflicts newpkg\<rparr>,
                   newpkg\<lparr>conflicts_count := 0, conflicts := None\<rparr>)
             else (oldpkg, newpkg));
          (oldpkg, newpkg) =
            (if replaces_count oldpkg = 0
             then (oldpkg\<lparr>replaces_count := replaces_count newpkg, replaces := replaces newpkg\<rparr>,
                   newpkg\<lparr>replaces_count := 0, replaces := None\<rparr>)
             else (oldpkg, newpkg));
          oldpkg = (if filename oldpkg = None
                    then oldpkg\<lparr>filename := filename newpkg\<rparr> else oldpkg);
          oldpkg = (if local_filename oldpkg = None
                    then oldpkg\<lparr>local_filename := local_filename newpkg\<rparr> else oldpkg);
          oldpkg = (if tmp_unpack_dir oldpkg = None
                    then oldpkg\<lparr>tmp_unpack_dir := tmp_unpack_dir newpkg\<rparr> else oldpkg);
          oldpkg = (if md5sum oldpkg = None then oldpkg\<lparr>md5sum := md5sum newpkg\<rparr> else oldpkg);
          oldpkg = (if sha256sum oldpkg = None
                    then oldpkg\<lparr>sha256sum := sha256sum newpkg\<rparr> else oldpkg);
          oldpkg = (if size_field oldpkg = 0
                    then oldpkg\<lparr>size_field := size_field newpkg\<rparr> else oldpkg);
          oldpkg = (if installed_size oldpkg = 0
                    then oldpkg\<lparr>installed_size := installed_size newpkg\<rparr> else oldpkg);
          oldpkg = (if priority oldpkg = None
                    then oldpkg\<lparr>priority := priority newpkg\<rparr> else oldpkg);
          (oldpkg, newpkg) =
            (if verbose_status_file conf \<and> userfields oldpkg = []
             then (oldpkg\<lparr>userfields := userfields newpkg\<rparr>, newpkg\<lparr>userfields := []\<rparr>)
             else (oldpkg, newpkg));
          oldpkg = (if source oldpkg = None then oldpkg\<lparr>source := source newpkg\<rparr> else oldpkg);
          (oldpkg, newpkg) =
            (if conffiles oldpkg = []
             then (oldpkg\<lparr>conffiles := conffiles newpkg\<rparr>, newpkg\<lparr>conffiles := []\<rparr>)
             else (oldpkg, newpkg));
          (oldpkg, newpkg) =
            (if installed_files oldpkg = None
             then (oldpkg\<lparr>installed_files := installed_files newpkg,
                            installed_files_ref_cnt := installed_files_ref_cnt newpkg\<rparr>,
                   newpkg\<lparr>installed_files := None\<rparr>)
             else (oldpkg, newpkg));
          oldpkg = (if essential oldpkg = 0
                    then oldpkg\<lparr>essential := essential newpkg\<rparr> else oldpkg)
      in (oldpkg, newpkg))"

text \<open>
  \<open>pkg_merge\<close> on a store of package objects: the two arguments are addresses, and merging
  an object into itself changes nothing.  The result is the return value and the store.
\<close>

definition pkg_merge ::
  "opkg_conf \<Rightarrow> (nat \<Rightarrow> pkg) \<Rightarrow> nat \<Rightarrow> nat \<Rightarrow> int \<times> (nat \<Rightarrow> pkg)" where
  "pkg_merge conf store oldpkg newpkg =
     (if oldpkg = newpkg then (0, store)
      else
        (case pkg_merge_body conf (store oldpkg) (store newpkg) of
           (old', new') \<Rightarrow> (0, store(oldpkg := old', newpkg := new'))))"

text \<open>``Keep the existing value when it is non-empty, else take the new one'', for a
  pointer and for a number.\<close>

definition keep_ptr :: "'a option \<Rightarrow> 'a option \<Rightarrow> 'a option" where
  "keep_ptr old new = (if old = None then new else old)"

definition keep_num :: "'a::zero \<Rightarrow> 'a \<Rightarrow> 'a" where
  "keep_num old new = (if old = 0 then new else old)"

section \<open>Sample data\<close>

definition example_dest :: pkg_dest where
  "example_dest = \<lparr> dest_name = ''root'', root_dir = ''/'', info_dir = ''/var/lib/opkg/info'' \<rparr>"

definition example_conf :: opkg_conf where
  "example_conf = \<lparr> verbose_status_file = False, noaction = False, offline_root = None,
     force_postinstall = False, force_checksum = False, check_pkg_signature = False,
     default_dest = example_dest \<rparr>"

definition no_files :: "string \<Rightarrow> bool" where
  "no_files p = False"

definition failing_shell :: "string list \<Rightarrow> int" where
  "failing_shell argv = 127"


text \<open>One choice of flag values (single bits, \<open>SF_OK = 0\<close>), for concrete evaluation.\<close>

definition sample_pkg_h :: pkg_h where
  "sample_pkg_h = \<lparr> SF_OK = 0, SF_REINSTREQ = 1, SF_HOLD = 2, SF_REPLACE = 4, SF_NOPRUNE = 8,
     SF_PREFER = 16, SF_OBSOLETE = 32, SF_USER = 256, SF_NONVOLATILE_FLAGS = 314,
     PKG_MINIMUM_FIELD_NAME_LEN = 4 \<rparr>"

text \<open>A world where the package file is there with 1024 bytes and every check succeeds.\<close>

definition sample_env :: verify_env where
  "sample_env = \<lparr>
     env_stat = (\<lambda>f. if f = Some ''/tmp/a.ipk'' then Stat_ok 1024 else Stat_ENOENT),
     env_verify_sha256sum = (\<lambda>f s. 0),
     env_verify_md5sum = (\<lambda>f s. 0),
     env_download_signature = (\<lambda>p. Some ''/tmp/a.ipk.sig''),
     env_verify_signature = (\<lambda>f s. 0),
     env_file_exists = (\<lambda>f. True) \<rparr>"

definition sample_pkg :: pkg where
  "sample_pkg = pkg_init\<lparr>name := Some ''a'', version := Some ''1.0'',
     local_filename := Some ''/tmp/a.ipk'', size_field := 1024\<rparr>"

definition sample_store :: "nat \<Rightarrow> pkg" where
  "sample_store a =
     (if a = 0 then sample_pkg\<lparr>maintainer := Some ''old'', depends_count := 1,
                     depends := Some [''libc'']\<rparr>
      else sample_pkg\<lparr>maintainer := Some ''new'', section_field := Some ''base'',
             tags := Some ''core'', depends_count := 2, depends := Some [''libc'', ''zlib''],
             userfields := [(''Homepage'', ''example.org'')]\<rparr>)"

section \<open>Properties of the version comparison\<close>

subsection \<open>Swapping the arguments\<close>

lemma digit_loop_stops:
  "digit_loop sc val ref d = (v, r, d') \<Longrightarrow> \<not> (isdigit (cur v) \<and> isdigit (cur r))"
proof (induction sc val ref d rule: digit_loop.induct)
  case (1 sc val ref d)
  show ?case
  proof (cases "isdigit (cur val) \<and> isdigit (cur ref)")
    case True
    with "1.prems" have "digit_loop sc (tl val) (tl ref)
        (if d = 0 then char_val sc (cur val) - char_val sc (cur ref) else d) = (v, r, d')"
      by (simp add: digit_loop.simps [of sc val ref d])
    from "1.IH" [OF True this] show ?thesis .
  next
    case False
    with "1.prems" show ?thesis
      by (auto simp: digit_loop.simps [of sc val ref d])
  qed
qed

lemma nondigit_loop_swap:
  "nondigit_loop sc ref val = map_sum uminus prod.swap (nondigit_loop sc val ref)"
proof (induction sc val ref rule: nondigit_loop.induct)
  case (1 sc val ref)
  show ?case
  proof (cases "(cur val \<noteq> NUL \<and> \<not> isdigit (cur val)) \<or> (cur ref \<noteq> NUL \<and> \<not> isdigit (cur ref))")
    case True
    show ?thesis
    proof (cases "order sc (cur val) = order sc (cur ref)")
      case eq: True
      from "1.IH" [OF True refl refl] eq
      have "nondigit_loop sc (tl ref) (tl val) = map_sum uminus prod.swap (nondigit_loop sc (tl val) (tl ref))"
        by simp
      with True eq show ?thesis
        by (subst nondigit_loop.simps, subst (2) nondigit_loop.simps) (auto simp: Let_def)
    next
      case False
      with True show ?thesis
        by (subst nondigit_loop.simps, subst (2) nondigit_loop.simps) (auto simp: Let_def)
    qed
  next
    case False
    then show ?thesis
      by (subst nondigit_loop.simps, subst (2) nondigit_loop.simps) auto
  qed
qed

lemma digit_loop_swap:
  "digit_loop sc ref val (- d) = (case digit_loop sc val ref d of (v, r, d') \<Rightarrow> (r, v, - d'))"
proof (induction sc val ref d rule: digit_loop.induct)
  case (1 sc val ref d)
  show ?case
  proof (cases "isdigit (cur val) \<and> isdigit (cur ref)")
    case True
    from "1.IH" [OF True] True show ?thesis
      by (subst digit_loop.simps, subst (2) digit_loop.simps) (auto split: if_splits)
  next
    case False
    then show ?thesis
      by (subst digit_loop.simps, subst (2) digit_loop.simps) auto
  qed
qed

lemma verrevcmp_loop_swap: "verrevcmp_loop sc ref val = - verrevcmp_loop sc val ref"
proof (induction sc val ref rule: verrevcmp_loop.induct)
  case (1 sc val ref)
  show ?case
  proof (cases "cur val \<noteq> NUL \<or> cur ref \<noteq> NUL")
    case False
    then show ?thesis
      by (subst verrevcmp_loop.simps, subst (2) verrevcmp_loop.simps) auto
  next
    case True
    have nds: "nondigit_loop sc ref val = map_sum uminus prod.swap (nondigit_loop sc val ref)"
      by (rule nondigit_loop_swap)
    show ?thesis
    proof (cases "nondigit_loop sc val ref")
      case (Inl k)
      with True show ?thesis
        by (subst verrevcmp_loop.simps, subst (2) verrevcmp_loop.simps)
           (auto simp: nds)
    next
      case (Inr p)
      obtain v1 r1 where p: "p = (v1, r1)" by (cases p)
      obtain v2 r2 d where dl: "digit_loop sc (skip_zeros v1) (skip_zeros r1) 0 = (v2, r2, d)"
        by (cases "digit_loop sc (skip_zeros v1) (skip_zeros r1) 0") auto
      from digit_loop_swap [of sc "skip_zeros r1" "skip_zeros v1" 0] dl
      have dl': "digit_loop sc (skip_zeros r1) (skip_zeros v1) 0 = (r2, v2, - d)" by simp
      from digit_loop_stops [OF dl] have ns: "\<not> (isdigit (cur v2) \<and> isdigit (cur r2))" .
      have lhs: "verrevcmp_loop sc ref val =
          (if isdigit (cur r2) then 1 else if isdigit (cur v2) then - 1
           else if d \<noteq> 0 then - d else verrevcmp_loop sc r2 v2)"
        using True Inr p dl'
        by (subst verrevcmp_loop.simps) (auto simp: nds)
      have rhs: "verrevcmp_loop sc val ref =
          (if isdigit (cur v2) then 1 else if isdigit (cur r2) then - 1
           else if d \<noteq> 0 then d else verrevcmp_loop sc v2 r2)"
        using True Inr p dl
        by (subst verrevcmp_loop.simps) auto
      show ?thesis
      proof (cases "\<not> isdigit (cur v2) \<and> \<not> isdigit (cur r2) \<and> d = 0")
        case last: True
        then have c1: "\<not> isdigit (cur v2)" and c2: "\<not> isdigit (cur r2)" and c3: "\<not> d \<noteq> 0"
          by simp_all
        have "verrevcmp_loop sc r2 v2 = - verrevcmp_loop sc v2 r2"
          by (rule "1.IH" [OF True Inr p [symmetric] dl [symmetric] refl c1 c2 c3])
        with last lhs rhs show ?thesis by simp
      next
        case False
        with ns lhs rhs show ?thesis by auto
      qed
    qed
  qed
qed

lemma verrevcmp_swap: "verrevcmp sc ref val = - verrevcmp sc val ref"
  unfolding verrevcmp_def by (rule verrevcmp_loop_swap)

lemma verrevcmp_refl: "verrevcmp sc v v = 0"
  using verrevcmp_swap [of sc v v] by simp

lemma sint_diff_nonneg:
  fixes a b :: "32 word"
  assumes "0 \<le> sint a" "0 \<le> sint b"
  shows "sint (a - b) = sint a - sint b"
proof -
  have "sint a < 2 ^ 31" "sint b < 2 ^ 31"
    using sint_lt [of a] sint_lt [of b] by simp_all
  with assms have "- (2 ^ 31) \<le> sint a - sint b" "sint a - sint b < 2 ^ 31" by linarith+
  then show ?thesis
    by (simp add: sint_word_diff signed_take_bit_int_eq_self)
qed

lemma sint_diff_eq_0: "sint (a - b) = 0 \<longleftrightarrow> a = b"
  by (simp add: signed_eq_0_iff)

subsection \<open>The loops of the code against the specification's description\<close>

lemma cur_simps [simp]: "cur [] = NUL" "cur (x # xs) = x"
  by (simp_all add: cur_def)

lemma of_char_less_256: "(of_char c :: nat) < 256"
proof -
  have "(of_char c :: nat) = of_char c mod 256"
    by (rule of_char_mod_256 [symmetric])
  also have "\<dots> < 256"
    by simp
  finally show ?thesis .
qed

lemma char_val_eq_iff: "char_val sc x = char_val sc y \<longleftrightarrow> x = y"
proof
  assume eq: "char_val sc x = char_val sc y"
  define m n :: nat where "m = of_char x" and "n = of_char y"
  have "m < 256" "n < 256"
    by (simp_all add: m_def n_def)
  moreover have "(if sc \<and> 128 \<le> m then int m - 256 else int m) =
      (if sc \<and> 128 \<le> n then int n - 256 else int n)"
    using eq unfolding char_val_def m_def n_def .
  ultimately have "m = n"
    by (simp split: if_splits)
  then show "x = y"
    by (simp add: m_def n_def)
qed simp

lemma char_val_lower: "- 128 \<le> char_val sc c"
  by (simp add: char_val_def)

lemma char_val_alpha: "isalpha c \<Longrightarrow> 65 \<le> char_val sc c"
  by (auto simp: char_val_def isalpha_def)

lemma order_digit: "isdigit c \<Longrightarrow> order sc c = 0"
  by (auto simp: order_def isdigit_def)

lemma order_NUL: "order sc NUL = 0"
  by (simp add: order_def NUL_def)

lemma order_nonzero: "c \<noteq> NUL \<Longrightarrow> \<not> isdigit c \<Longrightarrow> order sc c \<noteq> 0"
  using char_val_lower [of sc c] char_val_alpha [of c sc]
  by (auto simp: order_def)

lemma not_at_nondigit:
  assumes "\<not> at_nondigit s" and "NUL \<notin> set s"
  shows "nondigit_run s = []" and "after_nondigits s = s" and "order sc (cur s) = 0"
  using assms
  by (cases s; auto simp: at_nondigit_def nondigit_run_def after_nondigits_def order_digit order_NUL)+

lemma at_nondigit_Cons:
  assumes "at_nondigit s"
  obtains x xs where "s = x # xs" and "x \<noteq> NUL" and "\<not> isdigit x"
    and "nondigit_run s = x # nondigit_run xs" and "after_nondigits s = after_nondigits xs"
    and "order sc x \<noteq> 0"
  using assms
  by (cases s) (auto simp: at_nondigit_def nondigit_run_def after_nondigits_def order_nonzero)

lemma nondigit_loop_spec:
  assumes "NUL \<notin> set a" and "NUL \<notin> set b"
  shows "nondigit_loop sc a b =
    (if run_cmp sc (nondigit_run a) (nondigit_run b) \<noteq> 0
     then Inl (run_cmp sc (nondigit_run a) (nondigit_run b))
     else Inr (after_nondigits a, after_nondigits b))"
  using assms
proof (induction sc a b rule: nondigit_loop.induct)
  case (1 sc val ref)
  have unf: "nondigit_loop sc val ref =
     (if at_nondigit val \<or> at_nondigit ref then
        (if order sc (cur val) \<noteq> order sc (cur ref) then Inl (order sc (cur val) - order sc (cur ref))
         else nondigit_loop sc (tl val) (tl ref))
      else Inr (val, ref))"
    by (subst nondigit_loop.simps) (simp add: at_nondigit_def Let_def)
  show ?case
  proof (cases "at_nondigit val")
    case v: True
    then obtain x xs where val: "val = x # xs" and x: "x \<noteq> NUL" "\<not> isdigit x"
      and rv: "nondigit_run val = x # nondigit_run xs"
      and av: "after_nondigits val = after_nondigits xs" and ox: "order sc x \<noteq> 0"
      by (rule at_nondigit_Cons)
    show ?thesis
    proof (cases "at_nondigit ref")
      case r: True
      then obtain y ys where ref: "ref = y # ys" and y: "y \<noteq> NUL" "\<not> isdigit y"
        and rr: "nondigit_run ref = y # nondigit_run ys"
        and ar: "after_nondigits ref = after_nondigits ys" and oy: "order sc y \<noteq> 0"
        by (rule at_nondigit_Cons)
      show ?thesis
      proof (cases "order sc x = order sc y")
        case True
        have cond: "(cur val \<noteq> NUL \<and> \<not> isdigit (cur val)) \<or> (cur ref \<noteq> NUL \<and> \<not> isdigit (cur ref))"
          using val x by simp
        have "nondigit_loop sc (tl val) (tl ref) =
          (if run_cmp sc (nondigit_run (tl val)) (nondigit_run (tl ref)) \<noteq> 0
           then Inl (run_cmp sc (nondigit_run (tl val)) (nondigit_run (tl ref)))
           else Inr (after_nondigits (tl val), after_nondigits (tl ref)))"
          using "1.IH" [OF cond refl refl] True "1.prems" val ref by simp
        with True v val ref rv rr av ar show ?thesis unfolding unf by simp
      next
        case False
        with v val ref rv rr show ?thesis unfolding unf by simp
      qed
    next
      case r: False
      from not_at_nondigit [OF r] "1.prems"
      have "nondigit_run ref = []" "order sc (cur ref) = 0" by simp_all
      with v val rv ox show ?thesis unfolding unf by simp
    qed
  next
    case v: False
    from not_at_nondigit [OF v] "1.prems"
    have nv: "nondigit_run val = []" "order sc (cur val) = 0" "after_nondigits val = val" by simp_all
    show ?thesis
    proof (cases "at_nondigit ref")
      case r: True
      then obtain y ys where ref: "ref = y # ys" and y: "y \<noteq> NUL" "\<not> isdigit y"
        and rr: "nondigit_run ref = y # nondigit_run ys"
        and ar: "after_nondigits ref = after_nondigits ys" and oy: "order sc y \<noteq> 0"
        by (rule at_nondigit_Cons)
      with nv r show ?thesis unfolding unf by simp
    next
      case r: False
      from not_at_nondigit [OF r] "1.prems"
      have "nondigit_run ref = []" "after_nondigits ref = ref" by simp_all
      with nv v r show ?thesis unfolding unf by simp
    qed
  qed
qed

lemma isdigit_zero: "isdigit (CHR ''0'')"
  by (simp add: isdigit_def)

lemma digit_run_Cons:
  "digit_run (x # xs) = (if isdigit x then x # digit_run xs else [])"
  by (simp add: digit_run_def)

lemma isdigit_cur_Cons:
  assumes "isdigit (cur s)"
  obtains x xs where "s = x # xs" and "isdigit x"
  using assms isdigit_not_NUL by (cases s) auto

lemma not_isdigit_cur_digit_run: "\<not> isdigit (cur s) \<Longrightarrow> digit_run s = []"
  by (cases s) (auto simp: digit_run_def)

lemma digit_loop_spec:
  "digit_loop sc s t d =
     (let n = min (length (digit_run s)) (length (digit_run t)) in
      (drop n s, drop n t, if d \<noteq> 0 then d else first_diff_cmp sc (take n s) (take n t)))"
proof (induction sc s t d rule: digit_loop.induct)
  case (1 sc val ref d)
  show ?case
  proof (cases "isdigit (cur val) \<and> isdigit (cur ref)")
    case True
    then obtain x xs y ys where val: "val = x # xs" and x: "isdigit x"
      and ref: "ref = y # ys" and y: "isdigit y"
      by (metis isdigit_cur_Cons)
    let ?d = "if d = 0 then char_val sc (cur val) - char_val sc (cur ref) else d"
    have step: "digit_loop sc val ref d = digit_loop sc xs ys ?d"
      using True val ref by (subst digit_loop.simps) simp
    have ih: "digit_loop sc xs ys ?d =
       (let n = min (length (digit_run xs)) (length (digit_run ys)) in
        (drop n xs, drop n ys, if ?d \<noteq> 0 then ?d else first_diff_cmp sc (take n xs) (take n ys)))"
      using "1.IH" [OF True] unfolding val ref by (simp add: Let_def)
    show ?thesis
      unfolding step ih using val ref x y
      by (auto simp: Let_def digit_run_Cons char_val_eq_iff)
  next
    case False
    then have "digit_run val = [] \<or> digit_run ref = []"
      using not_isdigit_cur_digit_run by blast
    then have "min (length (digit_run val)) (length (digit_run ref)) = 0" by auto
    moreover have "digit_loop sc val ref d = (val, ref, d)"
      by (subst digit_loop.simps) (use False in auto)
    ultimately show ?thesis by (simp add: Let_def)
  qed
qed

lemma isdigit_cur_drop:
  assumes "n \<le> length (digit_run s)"
  shows "isdigit (cur (drop n s)) \<longleftrightarrow> n < length (digit_run s)"
  using assms
proof (induction s arbitrary: n)
  case Nil
  then show ?case using isdigit_not_NUL by (auto simp: digit_run_def)
next
  case (Cons x xs)
  show ?case
  proof (cases n)
    case 0
    then show ?thesis by (simp add: digit_run_Cons)
  next
    case (Suc m)
    with Cons.prems have "isdigit x" and "m \<le> length (digit_run xs)"
      by (auto simp: digit_run_Cons split: if_splits)
    with Cons.IH [of m] Suc show ?thesis by (simp add: digit_run_Cons)
  qed
qed

lemma digit_run_skip_zeros:
  "digit_run (skip_zeros s) = dropWhile (\<lambda>c. c = CHR ''0'') (digit_run s)"
  by (induction s) (auto simp: skip_zeros_def digit_run_def isdigit_zero)

lemma after_digits_skip_zeros: "after_digits (skip_zeros s) = after_digits s"
  by (induction s) (auto simp: skip_zeros_def after_digits_def isdigit_zero)

lemma take_digit_run: "take (length (digit_run s)) s = digit_run s"
  unfolding digit_run_def by (metis takeWhile_eq_take)

lemma drop_digit_run: "drop (length (digit_run s)) s = after_digits s"
  unfolding digit_run_def after_digits_def by (metis dropWhile_eq_drop)

lemma digit_phase_spec:
  "(case digit_loop sc (skip_zeros a1) (skip_zeros b1) 0 of
      (v2, r2, fd) \<Rightarrow>
        if isdigit (cur v2) then 1
        else if isdigit (cur r2) then - 1
        else if fd \<noteq> 0 then fd
        else k v2 r2)
   = (let d = digit_cmp sc (digit_run a1) (digit_run b1) in
      if d \<noteq> 0 then d else k (after_digits a1) (after_digits b1))"
proof -
  define sa sb where "sa = skip_zeros a1" and "sb = skip_zeros b1"
  define A B where "A = digit_run sa" and "B = digit_run sb"
  define n where "n = min (length A) (length B)"
  have A: "A = dropWhile (\<lambda>c. c = CHR ''0'') (digit_run a1)"
    and B: "B = dropWhile (\<lambda>c. c = CHR ''0'') (digit_run b1)"
    by (simp_all add: A_def B_def sa_def sb_def digit_run_skip_zeros)
  have dl: "digit_loop sc sa sb 0 = (drop n sa, drop n sb, first_diff_cmp sc (take n sa) (take n sb))"
    by (simp add: digit_loop_spec Let_def n_def A_def B_def)
  have cv: "isdigit (cur (drop n sa)) \<longleftrightarrow> n < length A"
    unfolding A_def by (rule isdigit_cur_drop) (simp add: n_def A_def)
  have cr: "isdigit (cur (drop n sb)) \<longleftrightarrow> n < length B"
    unfolding B_def by (rule isdigit_cur_drop) (simp add: n_def B_def)
  have dc: "digit_cmp sc (digit_run a1) (digit_run b1) =
      (if length A > length B then 1 else if length A < length B then - 1
       else first_diff_cmp sc A B)"
    by (simp add: digit_cmp_def Let_def A B)
  consider (gt) "length A > length B" | (lt) "length A < length B" | (eq) "length A = length B"
    by linarith
  then show ?thesis
  proof cases
    case gt
    then have "n < length A" by (simp add: n_def)
    with gt cv dc dl show ?thesis
      by (simp add: sa_def [symmetric] sb_def [symmetric])
  next
    case lt
    then have "\<not> n < length A" "n < length B" by (simp_all add: n_def)
    with lt cv cr dc dl show ?thesis
      by (simp add: sa_def [symmetric] sb_def [symmetric])
  next
    case eq
    then have n: "n = length A" "n = length B" by (simp_all add: n_def)
    have "take n sa = A" "take n sb = B"
      using n take_digit_run [of sa] take_digit_run [of sb] by (simp_all add: A_def B_def)
    moreover have "drop n sa = after_digits a1" "drop n sb = after_digits b1"
      using n drop_digit_run [of sa] drop_digit_run [of sb] after_digits_skip_zeros
      by (simp_all add: A_def B_def sa_def sb_def)
    ultimately show ?thesis
      using eq n cv cr dc dl
      by (simp add: sa_def [symmetric] sb_def [symmetric])
  qed
qed

lemma NUL_free_rest:
  "NUL \<notin> set s \<Longrightarrow> NUL \<notin> set (after_digits (after_nondigits s))"
  unfolding after_digits_def after_nondigits_def
  by (meson set_dropWhileD)

lemma NUL_free_cur: "NUL \<notin> set s \<Longrightarrow> cur s \<noteq> NUL \<longleftrightarrow> s \<noteq> []"
  by (cases s) auto

lemma verrevcmp_loop_eq_spec:
  assumes "NUL \<notin> set a" and "NUL \<notin> set b"
  shows "verrevcmp_loop sc a b = verrevcmp_spec sc a b"
  using assms
proof (induction "length a + length b" arbitrary: a b rule: less_induct)
  case less
  show ?case
  proof (cases "a = [] \<and> b = []")
    case True
    then show ?thesis
      by (subst verrevcmp_loop.simps, subst verrevcmp_spec.simps) simp
  next
    case False
    then have go: "cur a \<noteq> NUL \<or> cur b \<noteq> NUL"
      using less.prems by (simp add: NUL_free_cur)
    let ?c = "run_cmp sc (nondigit_run a) (nondigit_run b)"
    let ?a' = "after_digits (after_nondigits a)" and ?b' = "after_digits (after_nondigits b)"
    have shorter: "length ?a' + length ?b' < length a + length b"
      using False round_rest_less [of a] round_rest_less [of b]
        round_rest_le [of a] round_rest_le [of b]
      by (cases "a = []") auto
    have rec: "verrevcmp_loop sc ?a' ?b' = verrevcmp_spec sc ?a' ?b'"
      by (rule less.hyps [OF shorter]) (simp_all add: NUL_free_rest less.prems)
    have loop_unf: "verrevcmp_loop sc a b =
        (if ?c \<noteq> 0 then ?c
         else (let d = digit_cmp sc (digit_run (after_nondigits a)) (digit_run (after_nondigits b)) in
               if d \<noteq> 0 then d else verrevcmp_loop sc ?a' ?b'))"
      by (subst verrevcmp_loop.simps)
         (use go in \<open>simp add: nondigit_loop_spec [OF less.prems] digit_phase_spec\<close>)
    have spec_unf: "verrevcmp_spec sc a b =
        (if ?c \<noteq> 0 then ?c
         else (let d = digit_cmp sc (digit_run (after_nondigits a)) (digit_run (after_nondigits b)) in
               if d \<noteq> 0 then d else verrevcmp_spec sc ?a' ?b'))"
      by (subst verrevcmp_spec.simps) (use False in \<open>auto simp: Let_def\<close>)
    show ?thesis
      unfolding loop_unf spec_unf rec ..
  qed
qed

lemma NUL_free_c_str: "NUL \<notin> set (c_str s)"
  unfolding c_str_def by (metis (mono_tags, lifting) set_takeWhileD)

lemma verrevcmp_eq_spec: "verrevcmp sc val ref = verrevcmp_spec sc (the_str val) (the_str ref)"
  unfolding verrevcmp_def the_str_def
  by (rule verrevcmp_loop_eq_spec) (rule NUL_free_c_str)+

subsection \<open>Transitivity through the sort keys of the rounds\<close>

lemma run_cmp_key:
  assumes "\<forall>c \<in> set xs. order sc c \<noteq> 0" and "\<forall>c \<in> set ys. order sc c \<noteq> 0"
  shows "(run_cmp sc xs ys < 0 \<longleftrightarrow> map (order sc) xs @ [0] < map (order sc) ys @ [0])
       \<and> (run_cmp sc xs ys = 0 \<longleftrightarrow> map (order sc) xs = map (order sc) ys)"
  using assms
  by (induction sc xs ys rule: run_cmp.induct) auto

lemma first_diff_cmp_key:
  assumes "length a = length b"
  shows "(first_diff_cmp sc a b < 0 \<longleftrightarrow> map (char_val sc) a < map (char_val sc) b)
       \<and> (first_diff_cmp sc a b = 0 \<longleftrightarrow> map (char_val sc) a = map (char_val sc) b)"
  using assms
  by (induction a b rule: list_induct2) (auto simp: char_val_eq_iff)

lemma digit_cmp_key:
  "(digit_cmp sc d e < 0 \<longleftrightarrow>
      (length (dropWhile (\<lambda>c. c = CHR ''0'') d), map (char_val sc) (dropWhile (\<lambda>c. c = CHR ''0'') d))
    < (length (dropWhile (\<lambda>c. c = CHR ''0'') e), map (char_val sc) (dropWhile (\<lambda>c. c = CHR ''0'') e)))
   \<and> (digit_cmp sc d e = 0 \<longleftrightarrow>
      (length (dropWhile (\<lambda>c. c = CHR ''0'') d), map (char_val sc) (dropWhile (\<lambda>c. c = CHR ''0'') d))
    = (length (dropWhile (\<lambda>c. c = CHR ''0'') e), map (char_val sc) (dropWhile (\<lambda>c. c = CHR ''0'') e)))"
  using first_diff_cmp_key [of "dropWhile (\<lambda>c. c = CHR ''0'') d" "dropWhile (\<lambda>c. c = CHR ''0'') e" sc]
  by (auto simp: digit_cmp_def Let_def less_prod_def)

lemma nondigit_run_order:
  assumes "NUL \<notin> set s"
  shows "\<forall>c \<in> set (nondigit_run s). order sc c \<noteq> 0"
proof
  fix c assume c: "c \<in> set (nondigit_run s)"
  then have "\<not> isdigit c" and "c \<in> set s"
    unfolding nondigit_run_def by (auto dest: set_takeWhileD)
  with assms have "c \<noteq> NUL" by auto
  then show "order sc c \<noteq> 0" using \<open>\<not> isdigit c\<close> by (rule order_nonzero)
qed

lemma round_cmp_key:
  assumes "NUL \<notin> set a" and "NUL \<notin> set b"
  shows "(round_cmp sc a b < 0 \<longleftrightarrow> round_key sc a < round_key sc b)
       \<and> (round_cmp sc a b = 0 \<longleftrightarrow> round_key sc a = round_key sc b)"
  using run_cmp_key [OF nondigit_run_order [OF assms(1), of sc]
      nondigit_run_order [OF assms(2), of sc]]
    digit_cmp_key [of sc "digit_run (after_nondigits a)" "digit_run (after_nondigits b)"]
  by (auto simp: round_cmp_def round_key_def Let_def less_prod_def)

lemma verrevcmp_spec_Nil: "verrevcmp_spec sc [] [] = 0"
  by (subst verrevcmp_spec.simps) simp

lemma verrevcmp_spec_round:
  "verrevcmp_spec sc a b =
     (if round_cmp sc a b \<noteq> 0 then round_cmp sc a b
      else verrevcmp_spec sc (after_digits (after_nondigits a)) (after_digits (after_nondigits b)))"
proof (cases "a = [] \<and> b = []")
  case True
  then show ?thesis
    by (simp add: verrevcmp_spec_Nil round_cmp_def nondigit_run_def after_nondigits_def
        digit_run_def after_digits_def digit_cmp_def)
next
  case False
  then show ?thesis
    by (subst verrevcmp_spec.simps) (auto simp: round_cmp_def Let_def)
qed

lemma verrevcmp_spec_trans:
  assumes "NUL \<notin> set a" and "NUL \<notin> set b" and "NUL \<notin> set c"
    and "verrevcmp_spec sc a b \<le> 0" and "verrevcmp_spec sc b c \<le> 0"
  shows "verrevcmp_spec sc a c \<le> 0"
  using assms
proof (induction "length a + length b + length c" arbitrary: a b c rule: less_induct)
  case less
  let ?r = "\<lambda>s. after_digits (after_nondigits s)"
  note ab = round_cmp_key [OF less.prems(1) less.prems(2), of sc]
  note bc = round_cmp_key [OF less.prems(2) less.prems(3), of sc]
  note ac = round_cmp_key [OF less.prems(1) less.prems(3), of sc]
  show ?case
  proof (cases "a = [] \<and> b = [] \<and> c = []")
    case True
    then show ?thesis by (simp add: verrevcmp_spec_Nil)
  next
    case False
    have kab: "round_key sc a \<le> round_key sc b"
      using less.prems(4) ab by (subst (asm) verrevcmp_spec_round) (auto split: if_splits)
    have kbc: "round_key sc b \<le> round_key sc c"
      using less.prems(5) bc by (subst (asm) verrevcmp_spec_round) (auto split: if_splits)
    show ?thesis
    proof (cases "round_key sc a < round_key sc c")
      case True
      with ac show ?thesis by (subst verrevcmp_spec_round) auto
    next
      case nlt: False
      with kab kbc have eq: "round_key sc a = round_key sc b" "round_key sc b = round_key sc c"
        by auto
      with ab bc ac have z: "round_cmp sc a b = 0" "round_cmp sc b c = 0" "round_cmp sc a c = 0"
        by auto
      have shorter: "length (?r a) + length (?r b) + length (?r c) < length a + length b + length c"
        using False round_rest_less [of a] round_rest_less [of b] round_rest_less [of c]
          round_rest_le [of a] round_rest_le [of b] round_rest_le [of c]
        by (cases "a = []"; cases "b = []") auto
      have "verrevcmp_spec sc (?r a) (?r b) \<le> 0"
        using less.prems(4) z(1) by (subst (asm) verrevcmp_spec_round) simp
      moreover have "verrevcmp_spec sc (?r b) (?r c) \<le> 0"
        using less.prems(5) z(2) by (subst (asm) verrevcmp_spec_round) simp
      ultimately have "verrevcmp_spec sc (?r a) (?r c) \<le> 0"
        using less.hyps [OF shorter] less.prems(1-3) NUL_free_rest by blast
      with z(3) show ?thesis by (subst verrevcmp_spec_round) simp
    qed
  qed
qed

lemma NUL_free_the_str: "NUL \<notin> set (the_str p)"
  unfolding the_str_def by (rule NUL_free_c_str)

lemma verrevcmp_trans:
  "verrevcmp sc a b \<le> 0 \<Longrightarrow> verrevcmp sc b c \<le> 0 \<Longrightarrow> verrevcmp sc a c \<le> 0"
  unfolding verrevcmp_eq_spec
  by (rule verrevcmp_spec_trans [OF NUL_free_the_str NUL_free_the_str NUL_free_the_str])

subsection \<open>Packages: epoch, upstream version, revision\<close>

lemma verrevcmp_trans_zero:
  assumes ab: "verrevcmp sc a b \<le> 0" and bc: "verrevcmp sc b c \<le> 0" and ac: "verrevcmp sc a c = 0"
  shows "verrevcmp sc a b = 0 \<and> verrevcmp sc b c = 0"
proof -
  have ca: "verrevcmp sc c a \<le> 0" using ac verrevcmp_swap [of sc c a] by simp
  have "verrevcmp sc b a \<le> 0" using bc ca by (rule verrevcmp_trans)
  then have "0 \<le> verrevcmp sc a b" using verrevcmp_swap [of sc b a] by simp
  moreover have "verrevcmp sc c b \<le> 0" using ca ab by (rule verrevcmp_trans)
  then have "0 \<le> verrevcmp sc b c" using verrevcmp_swap [of sc c b] by simp
  ultimately show ?thesis using ab bc by simp
qed

lemma pkg_compare_versions_no_reinstall_nonneg:
  assumes "0 \<le> sint (epoch a)" and "0 \<le> sint (epoch b)"
  shows "pkg_compare_versions_no_reinstall sc a b =
    (if sint (epoch a) \<noteq> sint (epoch b) then sint (epoch a) - sint (epoch b)
     else if verrevcmp sc (version a) (version b) \<noteq> 0 then verrevcmp sc (version a) (version b)
     else verrevcmp sc (revision a) (revision b))"
  using sint_diff_nonneg [OF assms]
  by (simp add: pkg_compare_versions_no_reinstall_def Let_def)

lemma pkg_compare_swap:
  assumes "0 \<le> sint (epoch a)" and "0 \<le> sint (epoch b)"
  shows "pkg_compare_versions_no_reinstall sc b a = - pkg_compare_versions_no_reinstall sc a b"
  unfolding pkg_compare_versions_no_reinstall_nonneg [OF assms]
    pkg_compare_versions_no_reinstall_nonneg [OF assms(2) assms(1)]
  using verrevcmp_swap [of sc "version b" "version a"] verrevcmp_swap [of sc "revision b" "revision a"]
  by auto

lemma pkg_compare_trans:
  assumes a: "0 \<le> sint (epoch a)" and b: "0 \<le> sint (epoch b)" and c: "0 \<le> sint (epoch c)"
    and ab: "pkg_compare_versions_no_reinstall sc a b \<le> 0"
    and bc: "pkg_compare_versions_no_reinstall sc b c \<le> 0"
  shows "pkg_compare_versions_no_reinstall sc a c \<le> 0"
proof -
  note AB = pkg_compare_versions_no_reinstall_nonneg [OF a b]
  note BC = pkg_compare_versions_no_reinstall_nonneg [OF b c]
  note AC = pkg_compare_versions_no_reinstall_nonneg [OF a c]
  have eab: "sint (epoch a) \<le> sint (epoch b)" using ab unfolding AB by (auto split: if_splits)
  have ebc: "sint (epoch b) \<le> sint (epoch c)" using bc unfolding BC by (auto split: if_splits)
  show ?thesis
  proof (cases "sint (epoch a) < sint (epoch c)")
    case True
    then show ?thesis unfolding AC by simp
  next
    case False
    with eab ebc have e: "sint (epoch a) = sint (epoch b)" "sint (epoch b) = sint (epoch c)"
      by simp_all
    have vab: "verrevcmp sc (version a) (version b) \<le> 0"
      using ab e unfolding AB by (auto split: if_splits)
    have vbc: "verrevcmp sc (version b) (version c) \<le> 0"
      using bc e unfolding BC by (auto split: if_splits)
    have vac: "verrevcmp sc (version a) (version c) \<le> 0"
      using vab vbc by (rule verrevcmp_trans)
    show ?thesis
    proof (cases "verrevcmp sc (version a) (version c) = 0")
      case False
      with vac e show ?thesis unfolding AC by simp
    next
      case True
      from verrevcmp_trans_zero [OF vab vbc True]
      have z: "verrevcmp sc (version a) (version b) = 0" "verrevcmp sc (version b) (version c) = 0"
        by simp_all
      have "verrevcmp sc (revision a) (revision b) \<le> 0" using ab e z unfolding AB by simp
      moreover have "verrevcmp sc (revision b) (revision c) \<le> 0" using bc e z unfolding BC by simp
      ultimately have "verrevcmp sc (revision a) (revision c) \<le> 0" by (rule verrevcmp_trans)
      with True e show ?thesis unfolding AC by simp
    qed
  qed
qed

lemma verrevcmp_digits:
  assumes "\<forall>c \<in> set d. isdigit c" and "\<forall>c \<in> set e. isdigit c"
  shows "verrevcmp sc (Some d) (Some e) = digit_cmp sc d e"
proof -
  have str: "the_str (Some s) = s" "nondigit_run s = []" "after_nondigits s = s"
      "digit_run s = s" "after_digits s = []"
    if "\<forall>c \<in> set s. isdigit c" for s
  proof -
    from that show "the_str (Some s) = s"
      using isdigit_not_NUL by (auto simp: the_str_def c_str_def takeWhile_eq_all_conv)
    from that show "nondigit_run s = []" "after_nondigits s = s"
      by (cases s; simp add: nondigit_run_def after_nondigits_def)+
    from that show "digit_run s = s" "after_digits s = []"
      by (simp_all add: digit_run_def after_digits_def takeWhile_eq_all_conv dropWhile_eq_Nil_conv)
  qed
  show ?thesis
    unfolding verrevcmp_eq_spec str [OF assms(1)] str [OF assms(2)]
    by (subst verrevcmp_spec.simps)
       (auto simp: str [OF assms(1)] str [OF assms(2)] Let_def verrevcmp_spec_Nil digit_cmp_def)
qed

subsection \<open>The claims on version comparison\<close>

text \<open>
  Claim C1.  For two packages whose epochs are non-negative (the data model's invariant
  \<open>epoch \<ge> 0\<close>), the comparison is decided by the epochs, compared as numbers; when the
  epochs are equal, by \<open>verrevcmp\<close> on the upstream versions; when that is 0 as well, by
  \<open>verrevcmp\<close> on the revisions.  \<open>pkg_compare_versions\<close> returns the same value whenever
  these three keys do not all tie.
\<close>

theorem pkg_compare_versions_keys:
  assumes "0 \<le> sint (epoch a)" and "0 \<le> sint (epoch b)"
  shows "(sint (epoch a) < sint (epoch b) \<longrightarrow> pkg_compare_versions_no_reinstall sc a b < 0)
     \<and> (sint (epoch a) > sint (epoch b) \<longrightarrow> pkg_compare_versions_no_reinstall sc a b > 0)
     \<and> (epoch a = epoch b \<and> verrevcmp sc (version a) (version b) \<noteq> 0 \<longrightarrow>
          pkg_compare_versions_no_reinstall sc a b = verrevcmp sc (version a) (version b))
     \<and> (epoch a = epoch b \<and> verrevcmp sc (version a) (version b) = 0 \<longrightarrow>
          pkg_compare_versions_no_reinstall sc a b = verrevcmp sc (revision a) (revision b))
     \<and> (pkg_compare_versions_no_reinstall sc a b \<noteq> 0 \<longrightarrow>
          pkg_compare_versions sc a b = pkg_compare_versions_no_reinstall sc a b)"
  unfolding pkg_compare_versions_no_reinstall_nonneg [OF assms]
  by (auto simp: pkg_compare_versions_def Let_def pkg_compare_versions_no_reinstall_nonneg [OF assms])

theorem pkg_compare_versions_keys_witness:
  "0 \<le> sint (epoch (pkg_init\<lparr>epoch := 1, version := Some ''1.0'', revision := Some ''2''\<rparr>))
   \<and> 0 \<le> sint (epoch (pkg_init\<lparr>epoch := 1, version := Some ''1.0'', revision := Some ''10''\<rparr>))
   \<and> verrevcmp True (Some ''1.0'') (Some ''1.0'') = 0
   \<and> pkg_compare_versions_no_reinstall True
        (pkg_init\<lparr>epoch := 1, version := Some ''1.0'', revision := Some ''2''\<rparr>)
        (pkg_init\<lparr>epoch := 1, version := Some ''1.0'', revision := Some ''10''\<rparr>)
       = verrevcmp True (Some ''2'') (Some ''10'')
   \<and> verrevcmp True (Some ''2'') (Some ''10'') = - 1"
proof -
  have v: "verrevcmp True (Some ''1.0'') (Some ''1.0'') = 0" by code_simp
  have r: "verrevcmp True (Some ''2'') (Some ''10'') = - 1" by code_simp
  show ?thesis
    using pkg_compare_versions_keys
      [of "pkg_init\<lparr>epoch := 1, version := Some ''1.0'', revision := Some ''2''\<rparr>"
          "pkg_init\<lparr>epoch := 1, version := Some ''1.0'', revision := Some ''10''\<rparr>" True] v r
    by (simp add: pkg_init_def)
qed

text \<open>
  Claim C2.  \<open>verrevcmp\<close> computes what the specification describes, whether plain
  \<open>char\<close> is signed on the target or not: it alternates non-digit runs, compared
  character by character by \<open>order\<close> (\<open>-1\<close> for \<open>~\<close>, 0 for a digit or the end, the
  character for a letter, 256 plus the character otherwise, the character being converted
  to \<open>int\<close> as the target converts a \<open>char\<close>), and digit runs, where leading zeros are stripped, the longer run wins and runs of equal
  length are decided by the first digit that differs; on two strings of digits it is
  exactly that digit rule.  So \<open>1.0~rc1 < 1.0\<close>, \<open>1.0~~ < 1.0~\<close> and \<open>1.0 < 1.0a\<close>.
\<close>

theorem verrevcmp_algorithm:
  "verrevcmp sc val ref = verrevcmp_spec sc (the_str val) (the_str ref)
   \<and> order sc c =
       (if c = CHR ''~'' then - 1
        else if isdigit c \<or> c = NUL then 0
        else if isalpha c then char_val sc c
        else 256 + char_val sc c)
   \<and> (list_all isdigit d \<and> list_all isdigit e \<longrightarrow>
        verrevcmp sc (Some d) (Some e) = digit_cmp sc d e)
   \<and> verrevcmp sc (Some ''1.0~rc1'') (Some ''1.0'') < 0
   \<and> verrevcmp sc (Some ''1.0~~'') (Some ''1.0~'') < 0
   \<and> verrevcmp sc (Some ''1.0'') (Some ''1.0a'') < 0"
proof -
  have signed: "verrevcmp True (Some ''1.0~rc1'') (Some ''1.0'') < 0"
    "verrevcmp True (Some ''1.0~~'') (Some ''1.0~'') < 0"
    "verrevcmp True (Some ''1.0'') (Some ''1.0a'') < 0"
    by code_simp+
  have unsigned: "verrevcmp False (Some ''1.0~rc1'') (Some ''1.0'') < 0"
    "verrevcmp False (Some ''1.0~~'') (Some ''1.0~'') < 0"
    "verrevcmp False (Some ''1.0'') (Some ''1.0a'') < 0"
    by code_simp+
  have "verrevcmp sc (Some ''1.0~rc1'') (Some ''1.0'') < 0"
    using signed unsigned by (cases sc) simp_all
  moreover have "verrevcmp sc (Some ''1.0~~'') (Some ''1.0~'') < 0"
    using signed unsigned by (cases sc) simp_all
  moreover have "verrevcmp sc (Some ''1.0'') (Some ''1.0a'') < 0"
    using signed unsigned by (cases sc) simp_all
  moreover have "order sc c =
       (if c = CHR ''~'' then - 1
        else if isdigit c \<or> c = NUL then 0
        else if isalpha c then char_val sc c
        else 256 + char_val sc c)"
    by (simp add: order_def)
  ultimately show ?thesis
    using verrevcmp_eq_spec [of sc val ref] verrevcmp_digits [of d e sc]
    unfolding list_all_iff by blast
qed

theorem verrevcmp_algorithm_witness:
  "list_all isdigit ''0012'' \<and> list_all isdigit ''9''
   \<and> verrevcmp True (Some ''0012'') (Some ''9'') = digit_cmp True ''0012'' ''9''
   \<and> digit_cmp True ''0012'' ''9'' = 1
   \<and> verrevcmp True (Some ''1.2~b'') (Some ''1.2'') = verrevcmp_spec True ''1.2~b'' ''1.2''
   \<and> verrevcmp_spec True ''1.2~b'' ''1.2'' = - 1
   \<and> order True (CHR ''+'') = 299
   \<and> order True (CHR 0xE9) = 233
   \<and> verrevcmp True (Some [CHR 0xC3, CHR 0xA9]) (Some ''+'') = - 104
   \<and> verrevcmp False (Some [CHR 0xC3, CHR 0xA9]) (Some ''+'') = 152"
proof -
  have d: "list_all isdigit ''0012'' \<and> list_all isdigit ''9''" by code_simp
  have v: "digit_cmp True ''0012'' ''9'' = 1" by code_simp
  have s: "verrevcmp_spec True ''1.2~b'' ''1.2'' = - 1" by code_simp
  have t: "the_str (Some ''1.2~b'') = ''1.2~b''" "the_str (Some ''1.2'') = ''1.2''" by code_simp+
  have o: "(if CHR ''+'' = CHR ''~'' then - 1
        else if isdigit (CHR ''+'') \<or> CHR ''+'' = NUL then 0
        else if isalpha (CHR ''+'') then char_val True (CHR ''+'')
        else 256 + char_val True (CHR ''+'')) = 299" by code_simp
  have o': "(if CHR 0xE9 = CHR ''~'' then - 1
        else if isdigit (CHR 0xE9) \<or> CHR 0xE9 = NUL then 0
        else if isalpha (CHR 0xE9) then char_val True (CHR 0xE9)
        else 256 + char_val True (CHR 0xE9)) = 233" by code_simp
  have u: "verrevcmp_spec True (the_str (Some [CHR 0xC3, CHR 0xA9])) (the_str (Some ''+'')) = - 104"
    "verrevcmp_spec False (the_str (Some [CHR 0xC3, CHR 0xA9])) (the_str (Some ''+'')) = 152"
    by code_simp+
  show ?thesis
    using verrevcmp_algorithm [of True "Some ''0012''" "Some ''9''" "CHR ''+''" "''0012''" "''9''"]
      verrevcmp_algorithm [of True "Some ''1.2~b''" "Some ''1.2''" "CHR 0xE9" "''0012''" "''9''"]
      verrevcmp_algorithm [of True "Some [CHR 0xC3, CHR 0xA9]" "Some ''+''" "CHR 0xE9" "''0012''" "''9''"]
      verrevcmp_algorithm [of False "Some [CHR 0xC3, CHR 0xA9]" "Some ''+''" "CHR 0xE9" "''0012''" "''9''"]
      d v s t o o' u
    by simp
qed

text \<open>
  Claim C4.  The comparison is antisymmetric and transitive: the sign of
  \<open>verrevcmp v1 v2\<close> is the opposite of the sign of \<open>verrevcmp v2 v1\<close>, and
  \<open>verrevcmp v1 v2 \<le> 0\<close> with \<open>verrevcmp v2 v3 \<le> 0\<close> gives \<open>verrevcmp v1 v3 \<le> 0\<close>; the same
  holds for \<open>pkg_compare_versions_no_reinstall\<close> on packages with non-negative epochs.
\<close>

theorem version_comparison_order:
  "sgn (verrevcmp sc v1 v2) = - sgn (verrevcmp sc v2 v1)
   \<and> (verrevcmp sc v1 v2 \<le> 0 \<and> verrevcmp sc v2 v3 \<le> 0 \<longrightarrow> verrevcmp sc v1 v3 \<le> 0)
   \<and> (0 \<le> sint (epoch a) \<and> 0 \<le> sint (epoch b) \<longrightarrow>
        sgn (pkg_compare_versions_no_reinstall sc a b) = - sgn (pkg_compare_versions_no_reinstall sc b a))
   \<and> (0 \<le> sint (epoch a) \<and> 0 \<le> sint (epoch b) \<and> 0 \<le> sint (epoch c)
        \<and> pkg_compare_versions_no_reinstall sc a b \<le> 0
        \<and> pkg_compare_versions_no_reinstall sc b c \<le> 0 \<longrightarrow>
        pkg_compare_versions_no_reinstall sc a c \<le> 0)"
proof -
  have "sgn (verrevcmp sc v1 v2) = - sgn (verrevcmp sc v2 v1)"
    using verrevcmp_swap [of sc v2 v1] by simp
  moreover have "sgn (pkg_compare_versions_no_reinstall sc a b)
      = - sgn (pkg_compare_versions_no_reinstall sc b a)"
    if "0 \<le> sint (epoch a)" "0 \<le> sint (epoch b)"
    using pkg_compare_swap [OF that] by simp
  ultimately show ?thesis
    using verrevcmp_trans [of sc v1 v2 v3] pkg_compare_trans [of a b c sc] by blast
qed

theorem version_comparison_order_witness:
  "verrevcmp True (Some ''1.0~rc1'') (Some ''1.0'') \<le> 0
   \<and> verrevcmp True (Some ''1.0'') (Some ''1.0a'') \<le> 0
   \<and> verrevcmp True (Some ''1.0~rc1'') (Some ''1.0a'') \<le> 0
   \<and> 0 \<le> sint (epoch (pkg_init\<lparr>version := Some ''2.0''\<rparr>))
   \<and> 0 \<le> sint (epoch (pkg_init\<lparr>epoch := 1, version := Some ''1.0''\<rparr>))
   \<and> 0 \<le> sint (epoch (pkg_init\<lparr>epoch := 1, version := Some ''1.0'', revision := Some ''3''\<rparr>))
   \<and> pkg_compare_versions_no_reinstall True (pkg_init\<lparr>version := Some ''2.0''\<rparr>)
        (pkg_init\<lparr>epoch := 1, version := Some ''1.0''\<rparr>) \<le> 0
   \<and> pkg_compare_versions_no_reinstall True (pkg_init\<lparr>epoch := 1, version := Some ''1.0''\<rparr>)
        (pkg_init\<lparr>epoch := 1, version := Some ''1.0'', revision := Some ''3''\<rparr>) \<le> 0
   \<and> pkg_compare_versions_no_reinstall True (pkg_init\<lparr>version := Some ''2.0''\<rparr>)
        (pkg_init\<lparr>epoch := 1, version := Some ''1.0'', revision := Some ''3''\<rparr>) \<le> 0"
proof -
  have v: "verrevcmp True (Some ''1.0~rc1'') (Some ''1.0'') \<le> 0"
    "verrevcmp True (Some ''1.0'') (Some ''1.0a'') \<le> 0" by code_simp+
  have e: "0 \<le> sint (epoch (pkg_init\<lparr>version := Some ''2.0''\<rparr>))"
    "0 \<le> sint (epoch (pkg_init\<lparr>epoch := 1, version := Some ''1.0''\<rparr>))"
    "0 \<le> sint (epoch (pkg_init\<lparr>epoch := 1, version := Some ''1.0'', revision := Some ''3''\<rparr>))"
    by (simp_all add: pkg_init_def)
  have p: "pkg_compare_versions_no_reinstall True (pkg_init\<lparr>version := Some ''2.0''\<rparr>)
        (pkg_init\<lparr>epoch := 1, version := Some ''1.0''\<rparr>) \<le> 0"
    "pkg_compare_versions_no_reinstall True (pkg_init\<lparr>epoch := 1, version := Some ''1.0''\<rparr>)
        (pkg_init\<lparr>epoch := 1, version := Some ''1.0'', revision := Some ''3''\<rparr>) \<le> 0"
    by code_simp+
  show ?thesis
    using version_comparison_order
      [of True "Some ''1.0~rc1''" "Some ''1.0''" "Some ''1.0a''"
          "pkg_init\<lparr>version := Some ''2.0''\<rparr>"
          "pkg_init\<lparr>epoch := 1, version := Some ''1.0''\<rparr>"
          "pkg_init\<lparr>epoch := 1, version := Some ''1.0'', revision := Some ''3''\<rparr>"]
      v e p
    by blast
qed

subsection \<open>The reinstall flag as the last key\<close>

text \<open>
  Claim C10.  \<open>pkg_compare_versions\<close> consults the \<open>force_reinstall\<close> flags only after
  epoch, upstream version and revision: for two packages that agree on these three and
  differ in the flag, \<open>pkg_compare_versions_no_reinstall\<close> returns 0 and
  \<open>pkg_compare_versions\<close> returns the difference of the flags, which is not 0.
\<close>
theorem pkg_compare_versions_force_reinstall:
  assumes "epoch a = epoch b" and "version a = version b" and "revision a = revision b"
    and "force_reinstall a \<noteq> force_reinstall b"
  shows "pkg_compare_versions_no_reinstall sc a b = 0
    \<and> pkg_compare_versions sc a b = sint (force_reinstall a - force_reinstall b)
    \<and> pkg_compare_versions sc a b \<noteq> 0"
  using assms
  by (simp add: pkg_compare_versions_def pkg_compare_versions_no_reinstall_def
      verrevcmp_refl sint_diff_eq_0)

theorem pkg_compare_versions_force_reinstall_witness:
  "pkg_compare_versions_no_reinstall True
     (pkg_init\<lparr>version := Some ''1.0'', revision := Some ''r1''\<rparr>)
     (pkg_init\<lparr>version := Some ''1.0'', revision := Some ''r1'', force_reinstall := 1\<rparr>) = 0
   \<and> pkg_compare_versions True
     (pkg_init\<lparr>version := Some ''1.0'', revision := Some ''r1''\<rparr>)
     (pkg_init\<lparr>version := Some ''1.0'', revision := Some ''r1'', force_reinstall := 1\<rparr>) = - 1"
  using pkg_compare_versions_force_reinstall
    [of "pkg_init\<lparr>version := Some ''1.0'', revision := Some ''r1''\<rparr>"
        "pkg_init\<lparr>version := Some ''1.0'', revision := Some ''r1'', force_reinstall := 1\<rparr>"
        True]
  by (simp add: pkg_init_def)

subsection \<open>Version constraints\<close>

text \<open>
  Claim C3, as the code has it.  \<open>pkg_version_satisfied\<close> returns 1 or 0 computed from
  \<open>pkg_compare_versions it ref\<close>: 1 exactly when the result is \<open>\<le> 0\<close> for \<open><=\<close>, \<open>\<ge> 0\<close> for
  \<open>>=\<close>, \<open>< 0\<close> for \<open><<\<close>, \<open>> 0\<close> for \<open>>>\<close>, \<open>= 0\<close> for \<open>=\<close>, and it logs nothing; for
  the kind \<open>NONE\<close> (an unrecognised operator) it returns 0, never 1, and logs exactly one
  message, the error \<open>Unknown operator: \<close> followed by the operator string as
  \<open>str_to_constraint\<close> left it, a full stop and a newline.
\<close>
theorem pkg_version_satisfied_result:
  "pkg_version_satisfied sc s2c it ref op =
     (c_bool (case fst (s2c op) of
        EARLIER_EQUAL \<Rightarrow> pkg_compare_versions sc it ref \<le> 0
      | LATER_EQUAL \<Rightarrow> pkg_compare_versions sc it ref \<ge> 0
      | EARLIER \<Rightarrow> pkg_compare_versions sc it ref < 0
      | LATER \<Rightarrow> pkg_compare_versions sc it ref > 0
      | EQUAL \<Rightarrow> pkg_compare_versions sc it ref = 0
      | NONE \<Rightarrow> False),
      case fst (s2c op) of
        NONE \<Rightarrow> [(ERROR, ''Unknown operator: '' @ snd (s2c op) @ ''.'' @ [CHR 0x0A])]
      | _ \<Rightarrow> [])"
  by (simp add: pkg_version_satisfied_def c_bool_def split_beta
      split: version_constraint.split)

text \<open>An unrecognised operator is not satisfied: the claim's ``always true'' fails.\<close>

theorem pkg_version_satisfied_none_counterexample:
  "str_to_constraint ''!= 1.0'' = (NONE, ''!= 1.0'')
   \<and> pkg_version_satisfied True str_to_constraint pkg_init pkg_init ''!= 1.0''
       = (0, [(ERROR, ''Unknown operator: != 1.0.'' @ [CHR 0x0A])])"
  by (simp add: pkg_version_satisfied_def str_to_constraint_def)

theorem pkg_version_satisfied_result_witness:
  "pkg_version_satisfied True str_to_constraint
     (pkg_init\<lparr>version := Some ''1.2''\<rparr>) (pkg_init\<lparr>version := Some ''1.10''\<rparr>) ''<< 1.10''
     = (1, [])
   \<and> pkg_version_satisfied True str_to_constraint
     (pkg_init\<lparr>version := Some ''1.2''\<rparr>) (pkg_init\<lparr>version := Some ''1.10''\<rparr>) ''~> 1.10''
     = (0, [(ERROR, ''Unknown operator: ~> 1.10.'' @ [CHR 0x0A])])"
proof -
  have c: "pkg_compare_versions True (pkg_init\<lparr>version := Some ''1.2''\<rparr>)
      (pkg_init\<lparr>version := Some ''1.10''\<rparr>) < 0"
    by code_simp
  have k: "str_to_constraint ''<< 1.10'' = (EARLIER, ''1.10'')"
    "str_to_constraint ''~> 1.10'' = (NONE, ''~> 1.10'')"
    by code_simp+
  show ?thesis
    using pkg_version_satisfied_result
        [of True str_to_constraint "pkg_init\<lparr>version := Some ''1.2''\<rparr>"
            "pkg_init\<lparr>version := Some ''1.10''\<rparr>" "''<< 1.10''"]
      pkg_version_satisfied_result
        [of True str_to_constraint "pkg_init\<lparr>version := Some ''1.2''\<rparr>"
            "pkg_init\<lparr>version := Some ''1.10''\<rparr>" "''~> 1.10''"]
      c k
    by (simp add: c_bool_def)
qed

section \<open>Maintainer scripts that are not there\<close>

text \<open>
  Claim C9.  When the path \<open>pkg_run_script\<close> resolves for a script names no existing file,
  the call returns 0, starts no shell command and logs no error.
\<close>

theorem pkg_run_script_missing_script:
  assumes "script_path pkg script = Inr path" and "\<not> file_exists path"
  shows "fst (pkg_run_script conf file_exists xsystem pkg script args) = 0
    \<and> \<not> list_ex is_xsystem (snd (pkg_run_script conf file_exists xsystem pkg script args))
    \<and> \<not> list_ex is_error_log (snd (pkg_run_script conf file_exists xsystem pkg script args))"
  using assms
  by (simp add: pkg_run_script_def is_xsystem_def is_error_log_def)

theorem pkg_run_script_missing_script_witness:
  "script_path (pkg_init\<lparr>name := Some ''busybox'', state_status := SS_INSTALLED,
        dest := Some example_dest\<rparr>) ''postinst'' = Inr ''/var/lib/opkg/info/busybox.postinst''
   \<and> \<not> no_files ''/var/lib/opkg/info/busybox.postinst''
   \<and> pkg_run_script example_conf no_files failing_shell
        (pkg_init\<lparr>name := Some ''busybox'', state_status := SS_INSTALLED,
           dest := Some example_dest\<rparr>) ''postinst'' ''configure''
      = (0, [Log INFO (''Running script /var/lib/opkg/info/busybox.postinst.'' @ [CHR 0x0A]),
             Setenv ''PKG_ROOT'' ''/''])"
proof -
  have p: "script_path (pkg_init\<lparr>name := Some ''busybox'', state_status := SS_INSTALLED,
        dest := Some example_dest\<rparr>) ''postinst'' = Inr ''/var/lib/opkg/info/busybox.postinst''"
    by (simp add: script_path_def pkg_init_def example_dest_def str_or_null_def)
  have f: "\<not> no_files ''/var/lib/opkg/info/busybox.postinst''"
    by (simp add: no_files_def)
  have r: "pkg_run_script example_conf no_files failing_shell
        (pkg_init\<lparr>name := Some ''busybox'', state_status := SS_INSTALLED,
           dest := Some example_dest\<rparr>) ''postinst'' ''configure''
      = (0, [Log INFO (''Running script /var/lib/opkg/info/busybox.postinst.'' @ [CHR 0x0A]),
             Setenv ''PKG_ROOT'' ''/''])"
    using pkg_run_script_missing_script
      [of "pkg_init\<lparr>name := Some ''busybox'', state_status := SS_INSTALLED,
           dest := Some example_dest\<rparr>" "''postinst''" "''/var/lib/opkg/info/busybox.postinst''"
          no_files example_conf failing_shell "''configure''"] p f
    by (simp add: pkg_run_script_def example_conf_def example_dest_def)
  from p f r show ?thesis by blast
qed

section \<open>The Status line\<close>

lemma flag_names_concat:
  "concat (map (\<lambda>(v, s). if p v then s @ '','' else []) m)
     = concat (map (\<lambda>n. n @ '','') (map snd (filter (\<lambda>(v, s). p v) m)))"
  by (induction m) auto

lemma butlast_commas:
  "names \<noteq> [] \<Longrightarrow> butlast (concat (map (\<lambda>n. n @ '','') names)) = join_commas names"
proof (induction names rule: join_commas.induct)
  case 1
  then show ?case by simp
next
  case (2 x)
  then show ?case by simp
next
  case (3 x y ys)
  then have "butlast (concat (map (\<lambda>n. n @ '','') (y # ys))) = join_commas (y # ys)" by simp
  then show ?case by (simp add: butlast_append)
qed

lemma join_commas_length: "names \<noteq> [] \<Longrightarrow> length (hd names) \<le> length (join_commas names)"
  by (induction names rule: join_commas.induct) auto

lemma pkg_state_flag_to_str_spec:
  "pkg_state_flag_to_str h sf =
     (if sf AND SF_NONVOLATILE_FLAGS h = 0 then Inr ''ok''
      else if set_nonvolatile_flags h sf = [] then Inl Out_of_bounds_write
      else Inr (join_commas (set_nonvolatile_flags h sf)))"
proof -
  let ?names = "set_nonvolatile_flags h sf"
  have c: "concat (map (\<lambda>(v, s). if (sf AND SF_NONVOLATILE_FLAGS h) AND v \<noteq> 0 then s @ '','' else [])
              (pkg_state_flag_map h)) = concat (map (\<lambda>n. n @ '','') ?names)"
    unfolding set_nonvolatile_flags_def by (rule flag_names_concat)
  have e: "concat (map (\<lambda>n. n @ '','') ?names) = [] \<longleftrightarrow> ?names = []"
    by (cases ?names) auto
  show ?thesis
    unfolding pkg_state_flag_to_str_def Let_def c
    using e butlast_commas [of ?names] by auto
qed

lemma set_nonvolatile_flags_long:
  assumes "SF_OK h = 0" and "n \<in> set (set_nonvolatile_flags h sf)"
  shows "4 \<le> length n"
proof -
  from assms(2) obtain v where "(v, n) \<in> set (pkg_state_flag_map h)"
    and "(sf AND SF_NONVOLATILE_FLAGS h) AND v \<noteq> 0"
    unfolding set_nonvolatile_flags_def by auto
  then show ?thesis
    using assms(1) by (auto simp: pkg_state_flag_map_def)
qed

lemma set_nonvolatile_flags_not_ok:
  assumes "SF_OK h = 0" and "set_nonvolatile_flags h sf \<noteq> []"
  shows "join_commas (set_nonvolatile_flags h sf) \<noteq> ''ok''"
proof
  assume ok: "join_commas (set_nonvolatile_flags h sf) = ''ok''"
  have "hd (set_nonvolatile_flags h sf) \<in> set (set_nonvolatile_flags h sf)"
    using assms(2) by simp
  then have "4 \<le> length (hd (set_nonvolatile_flags h sf))"
    using set_nonvolatile_flags_long [OF assms(1)] by blast
  with join_commas_length [OF assms(2)] ok show False by simp
qed

lemma and_foldr_or_zero:
  fixes x :: "32 word"
  assumes "\<forall>v \<in> set vs. x AND v = 0"
  shows "x AND foldr (OR) vs 0 = 0"
  using assms by (induction vs) (simp_all add: bit.conj_disj_distrib)

lemma set_nonvolatile_flags_nonempty:
  assumes cov: "SF_NONVOLATILE_FLAGS h AND NOT (table_mask h) = 0"
    and nz: "sf AND SF_NONVOLATILE_FLAGS h \<noteq> 0"
  shows "set_nonvolatile_flags h sf \<noteq> []"
proof
  let ?x = "sf AND SF_NONVOLATILE_FLAGS h"
  assume "set_nonvolatile_flags h sf = []"
  then have "\<forall>v \<in> set (map fst (pkg_state_flag_map h)). ?x AND v = 0"
    unfolding set_nonvolatile_flags_def by (auto simp: filter_empty_conv)
  then have a: "?x AND table_mask h = 0"
    unfolding table_mask_def by (rule and_foldr_or_zero)
  have b: "?x AND NOT (table_mask h) = 0"
    using cov by (metis and.assoc bit.conj_zero_right)
  have "?x = ?x AND (table_mask h OR NOT (table_mask h))" by simp
  also have "\<dots> = (?x AND table_mask h) OR (?x AND NOT (table_mask h))"
    by (rule bit.conj_disj_distrib)
  also have "\<dots> = 0" using a b by simp
  finally show False using nz by simp
qed

lemma set_nonvolatile_flags_empty:
  "sf AND SF_NONVOLATILE_FLAGS h = 0 \<Longrightarrow> set_nonvolatile_flags h sf = []"
  by (simp add: set_nonvolatile_flags_def)

text \<open>
  Claim C8.  With \<open>SF_OK = 0\<close> and every non-volatile bit belonging to a flag of the table
  (the two facts about \<open>pkg.h\<close> the code relies on), the Status line is
  \<open>Status: <want> <flags> <status>\<close>, where \<open><flags>\<close> is the comma-joined list of the
  flags that are set and non-volatile, and is the single word \<open>ok\<close> exactly when that list
  is empty; a name is listed only if its bit is set in the package and lies in the
  non-volatile mask.
\<close>

theorem status_line_emission:
  assumes "SF_OK h = 0" and "SF_NONVOLATILE_FLAGS h AND NOT (table_mask h) = 0"
    and "PKG_MINIMUM_FIELD_NAME_LEN h \<le> 6"
    and "should_include_field (Some ''Status'') fields_filter"
  shows "(let names = set_nonvolatile_flags h (state_flag pkg);
              flags = (if names = [] then ''ok'' else join_commas names)
          in pkg_formatted_field_Status h pkg fields_filter =
               Inr (''Status: '' @ pkg_state_want_to_str (state_want pkg) @ '' '' @ flags @ '' ''
                      @ pkg_state_status_to_str (state_status pkg) @ [CHR 0x0A], [])
             \<and> (flags = ''ok'' \<longleftrightarrow> names = [])
             \<and> (names = [] \<longleftrightarrow> state_flag pkg AND SF_NONVOLATILE_FLAGS h = 0)
             \<and> (\<forall>n \<in> set names. \<exists>v. (v, n) \<in> set (pkg_state_flag_map h)
                   \<and> state_flag pkg AND v \<noteq> 0 \<and> SF_NONVOLATILE_FLAGS h AND v \<noteq> 0))"
proof -
  let ?names = "set_nonvolatile_flags h (state_flag pkg)"
  have iff: "?names = [] \<longleftrightarrow> state_flag pkg AND SF_NONVOLATILE_FLAGS h = 0"
    using set_nonvolatile_flags_nonempty [OF assms(2)] set_nonvolatile_flags_empty by blast
  have out: "pkg_formatted_field_Status h pkg fields_filter =
      Inr (''Status: '' @ pkg_state_want_to_str (state_want pkg) @ '' ''
             @ (if ?names = [] then ''ok'' else join_commas ?names) @ '' ''
             @ pkg_state_status_to_str (state_status pkg) @ [CHR 0x0A], [])"
    using assms(3,4) iff
    by (simp add: pkg_formatted_field_Status_def pkg_state_flag_to_str_spec)
  have ok: "(if ?names = [] then ''ok'' else join_commas ?names) = ''ok'' \<longleftrightarrow> ?names = []"
    using set_nonvolatile_flags_not_ok [OF assms(1)] by auto
  have src: "\<exists>v. (v, n) \<in> set (pkg_state_flag_map h)
      \<and> state_flag pkg AND v \<noteq> 0 \<and> SF_NONVOLATILE_FLAGS h AND v \<noteq> 0"
    if "n \<in> set ?names" for n
  proof -
    from that obtain v where v: "(v, n) \<in> set (pkg_state_flag_map h)"
      and nz: "(state_flag pkg AND SF_NONVOLATILE_FLAGS h) AND v \<noteq> 0"
      unfolding set_nonvolatile_flags_def by auto
    have "state_flag pkg AND v \<noteq> 0"
    proof
      assume "state_flag pkg AND v = 0"
      then have "(state_flag pkg AND SF_NONVOLATILE_FLAGS h) AND v = 0"
        by (metis bit.conj_zero_right word_bw_assocs(1) word_bw_comms(1))
      with nz show False by simp
    qed
    moreover have "SF_NONVOLATILE_FLAGS h AND v \<noteq> 0"
    proof
      assume "SF_NONVOLATILE_FLAGS h AND v = 0"
      then have "(state_flag pkg AND SF_NONVOLATILE_FLAGS h) AND v = 0"
        by (metis bit.conj_zero_right word_bw_assocs(1))
      with nz show False by simp
    qed
    ultimately show ?thesis using v by blast
  qed
  show ?thesis
    unfolding Let_def using out ok iff src by blast
qed

theorem status_line_emission_witness:
  "SF_OK sample_pkg_h = 0
   \<and> SF_NONVOLATILE_FLAGS sample_pkg_h AND NOT (table_mask sample_pkg_h) = 0
   \<and> PKG_MINIMUM_FIELD_NAME_LEN sample_pkg_h \<le> 6
   \<and> should_include_field (Some ''Status'') None
   \<and> set_nonvolatile_flags sample_pkg_h 138 = [''hold'', ''noprune'']
   \<and> pkg_formatted_field_Status sample_pkg_h
        (pkg_init\<lparr>state_want := SW_INSTALL, state_flag := 138, state_status := SS_INSTALLED\<rparr>) None
      = Inr (''Status: install hold,noprune installed'' @ [CHR 0x0A], [])"
proof -
  have h: "SF_OK sample_pkg_h = 0"
    "SF_NONVOLATILE_FLAGS sample_pkg_h AND NOT (table_mask sample_pkg_h) = 0"
    "PKG_MINIMUM_FIELD_NAME_LEN sample_pkg_h \<le> 6"
    "should_include_field (Some ''Status'') None"
    by (simp_all add: sample_pkg_h_def table_mask_def pkg_state_flag_map_def
        should_include_field_def)
  have n: "set_nonvolatile_flags sample_pkg_h 138 = [''hold'', ''noprune'']"
    by (simp add: set_nonvolatile_flags_def sample_pkg_h_def pkg_state_flag_map_def)
  show ?thesis
    using status_line_emission [OF h,
        of "pkg_init\<lparr>state_want := SW_INSTALL, state_flag := 138, state_status := SS_INSTALLED\<rparr>"]
      h n
    by (simp add: Let_def pkg_init_def)
qed

section \<open>The stages of verification\<close>

lemmas pkg_verify_defs =
  pkg_verify_def pkg_verify_signature_stage_def pkg_verify_fail_def Let_def
  size_stage_passes_def checksum_stage_def signature_stage_passes_def stages_def

lemma pkg_verify_starts_with_stat:
  "snd (pkg_verify have_sha256 conf env pkg) \<noteq> []
   \<and> hd (snd (pkg_verify have_sha256 conf env pkg)) = Stat (local_filename pkg)"
  by (simp add: pkg_verify_defs split: stat_result.split option.split)

lemma pkg_verify_stages_sorted:
  "sorted (stages (snd (pkg_verify have_sha256 conf env pkg)))"
  by (simp add: pkg_verify_defs split: stat_result.split option.split)

lemma pkg_verify_missing_file:
  "env_stat env (local_filename pkg) = Stat_ENOENT
   \<Longrightarrow> pkg_verify have_sha256 conf env pkg = (1, [Stat (local_filename pkg)])"
  by (simp add: pkg_verify_def)

lemma pkg_verify_size_first:
  "2 \<in> set (stages (snd (pkg_verify have_sha256 conf env pkg)))
     \<or> 3 \<in> set (stages (snd (pkg_verify have_sha256 conf env pkg)))
     \<or> 4 \<in> set (stages (snd (pkg_verify have_sha256 conf env pkg)))
   \<Longrightarrow> size_stage_passes env pkg"
  by (auto simp: pkg_verify_defs split: stat_result.splits option.splits if_splits)

lemma pkg_verify_checksum_choice:
  assumes "size_stage_passes env pkg"
  shows "(have_sha256 \<and> sha256sum pkg \<noteq> None \<longrightarrow>
            Verify_sha256sum (local_filename pkg) (the (sha256sum pkg))
              \<in> set (snd (pkg_verify have_sha256 conf env pkg))
            \<and> Verify_md5sum (local_filename pkg) m
              \<notin> set (snd (pkg_verify have_sha256 conf env pkg)))
       \<and> (\<not> (have_sha256 \<and> sha256sum pkg \<noteq> None) \<and> md5sum pkg \<noteq> None \<longrightarrow>
            Verify_md5sum (local_filename pkg) (the (md5sum pkg))
              \<in> set (snd (pkg_verify have_sha256 conf env pkg))
            \<and> Verify_sha256sum (local_filename pkg) s
              \<notin> set (snd (pkg_verify have_sha256 conf env pkg)))
       \<and> (checksum_stage have_sha256 env pkg = Checksum_missing \<and> \<not> force_checksum conf \<longrightarrow>
            pkg_verify have_sha256 conf env pkg =
              (- 1, [Stat (local_filename pkg), Log ERROR checksum_missing_msg]))"
  using assms
  by (auto simp: pkg_verify_defs split: stat_result.splits option.splits if_splits)

lemma pkg_verify_signature_last:
  assumes "3 \<in> set (stages (snd (pkg_verify have_sha256 conf env pkg)))
     \<or> 4 \<in> set (stages (snd (pkg_verify have_sha256 conf env pkg)))"
  shows "check_pkg_signature conf \<and> size_stage_passes env pkg
     \<and> (checksum_stage have_sha256 env pkg = Checksum_passes
         \<or> checksum_stage have_sha256 env pkg = Checksum_missing \<and> force_checksum conf)"
  using assms
  by (auto simp: pkg_verify_defs split: stat_result.splits option.splits if_splits)

lemma pkg_verify_signature_file:
  assumes "Verify_signature f sig \<in> set (snd (pkg_verify have_sha256 conf env pkg))"
  shows "f = local_filename pkg \<and> env_download_signature env pkg = Some sig
     \<and> Download_signature \<in> set (snd (pkg_verify have_sha256 conf env pkg))"
  using assms
  by (auto simp: pkg_verify_defs split: stat_result.splits option.splits if_splits)

lemma pkg_verify_zero:
  assumes "\<not> force_checksum conf"
  shows "fst (pkg_verify have_sha256 conf env pkg) = 0 \<longleftrightarrow>
     size_stage_passes env pkg \<and> checksum_stage have_sha256 env pkg = Checksum_passes
     \<and> (check_pkg_signature conf \<longrightarrow> signature_stage_passes env pkg)"
  using assms
  by (auto simp: pkg_verify_defs split: stat_result.splits option.splits if_splits)

lemma pkg_verify_overridden:
  assumes "force_checksum conf"
  shows "fst (pkg_verify have_sha256 conf env pkg) = 0 \<longleftrightarrow>
     env_stat env (local_filename pkg) \<noteq> Stat_ENOENT"
  using assms
  by (auto simp: pkg_verify_defs split: stat_result.splits option.splits if_splits)

lemma pkg_verify_forced:
  assumes "force_checksum conf"
  shows "\<not> list_ex is_unlink (snd (pkg_verify have_sha256 conf env pkg))
     \<and> (env_stat env (local_filename pkg) \<noteq> Stat_ENOENT \<longrightarrow>
          fst (pkg_verify have_sha256 conf env pkg) = 0)"
  using assms
  by (auto simp: pkg_verify_defs is_unlink_def split: stat_result.splits option.splits if_splits)

lemma pkg_verify_removes:
  assumes "\<not> force_checksum conf" and "fst (pkg_verify have_sha256 conf env pkg) \<noteq> 0"
    and "env_stat env (local_filename pkg) \<noteq> Stat_ENOENT"
    and "\<not> (size_stage_passes env pkg \<and> checksum_stage have_sha256 env pkg = Checksum_missing)"
  shows "Unlink (local_filename pkg) \<in> set (snd (pkg_verify have_sha256 conf env pkg))
     \<and> (Verify_signature (local_filename pkg) s \<in> set (snd (pkg_verify have_sha256 conf env pkg))
          \<and> env_file_exists env s \<longrightarrow>
        Unlink (Some s) \<in> set (snd (pkg_verify have_sha256 conf env pkg)))"
  using assms
  by (auto simp: pkg_verify_defs split: stat_result.splits option.splits if_splits)

lemma pkg_verify_missing_checksum:
  assumes "\<not> force_checksum conf" and "size_stage_passes env pkg"
    and "checksum_stage have_sha256 env pkg = Checksum_missing"
  shows "fst (pkg_verify have_sha256 conf env pkg) = - 1
     \<and> \<not> list_ex is_unlink (snd (pkg_verify have_sha256 conf env pkg))"
  using assms
  by (auto simp: pkg_verify_defs is_unlink_def split: stat_result.splits option.splits if_splits)

lemma pkg_verify_unlink_only_on_failure:
  assumes "list_ex is_unlink (snd (pkg_verify have_sha256 conf env pkg))"
  shows "fst (pkg_verify have_sha256 conf env pkg) \<noteq> 0 \<and> \<not> force_checksum conf"
  using assms
  by (auto simp: pkg_verify_defs is_unlink_def split: stat_result.splits option.splits if_splits)

text \<open>
  Claim C6, as the code has it.  \<open>pkg_verify\<close> starts with \<open>stat\<close>; when the file does not
  exist it returns 1 at once, having done and logged nothing else.  A checksum or a
  signature is only looked at when the file has at least one byte and exactly the
  advertised size.  Then, if opkg was built with \<open>HAVE_SHA256\<close> and a sha256sum is known,
  that is verified; else if an md5sum is known, that is verified; else the call logs that
  the checksum is missing and returns \<open>-1\<close> unless force-checksum is set.  The signature is
  fetched, and verified, only when signature checking is enabled and only after the
  checksum stage has passed (or was waived by force-checksum for a missing checksum);
  the signature that is verified is the one that was fetched, for the local file.  The
  operations happen in this order.  Without force-checksum the result is 0 exactly when
  every applicable stage passes; with force-checksum it is 0 whenever the file exists.
\<close>

theorem pkg_verify_stage_order:
  "snd (pkg_verify have_sha256 conf env pkg) \<noteq> []
   \<and> hd (snd (pkg_verify have_sha256 conf env pkg)) = Stat (local_filename pkg)
   \<and> (env_stat env (local_filename pkg) = Stat_ENOENT \<longrightarrow>
        pkg_verify have_sha256 conf env pkg = (1, [Stat (local_filename pkg)]))
   \<and> sorted (stages (snd (pkg_verify have_sha256 conf env pkg)))
   \<and> (2 \<in> set (stages (snd (pkg_verify have_sha256 conf env pkg)))
        \<or> 3 \<in> set (stages (snd (pkg_verify have_sha256 conf env pkg)))
        \<or> 4 \<in> set (stages (snd (pkg_verify have_sha256 conf env pkg)))
       \<longrightarrow> size_stage_passes env pkg)
   \<and> (size_stage_passes env pkg \<and> have_sha256 \<and> sha256sum pkg \<noteq> None \<longrightarrow>
        Verify_sha256sum (local_filename pkg) (the (sha256sum pkg))
          \<in> set (snd (pkg_verify have_sha256 conf env pkg))
        \<and> Verify_md5sum (local_filename pkg) m \<notin> set (snd (pkg_verify have_sha256 conf env pkg)))
   \<and> (size_stage_passes env pkg \<and> \<not> (have_sha256 \<and> sha256sum pkg \<noteq> None)
        \<and> md5sum pkg \<noteq> None \<longrightarrow>
        Verify_md5sum (local_filename pkg) (the (md5sum pkg))
          \<in> set (snd (pkg_verify have_sha256 conf env pkg))
        \<and> Verify_sha256sum (local_filename pkg) s \<notin> set (snd (pkg_verify have_sha256 conf env pkg)))
   \<and> (size_stage_passes env pkg \<and> checksum_stage have_sha256 env pkg = Checksum_missing
        \<and> \<not> force_checksum conf \<longrightarrow>
        pkg_verify have_sha256 conf env pkg =
          (- 1, [Stat (local_filename pkg), Log ERROR checksum_missing_msg]))
   \<and> (3 \<in> set (stages (snd (pkg_verify have_sha256 conf env pkg)))
        \<or> 4 \<in> set (stages (snd (pkg_verify have_sha256 conf env pkg))) \<longrightarrow>
        check_pkg_signature conf
        \<and> (checksum_stage have_sha256 env pkg = Checksum_passes
            \<or> checksum_stage have_sha256 env pkg = Checksum_missing \<and> force_checksum conf))
   \<and> (Verify_signature f sig \<in> set (snd (pkg_verify have_sha256 conf env pkg)) \<longrightarrow>
        f = local_filename pkg \<and> env_download_signature env pkg = Some sig
        \<and> Download_signature \<in> set (snd (pkg_verify have_sha256 conf env pkg)))
   \<and> (\<not> force_checksum conf \<longrightarrow>
        (fst (pkg_verify have_sha256 conf env pkg) = 0 \<longleftrightarrow>
           size_stage_passes env pkg \<and> checksum_stage have_sha256 env pkg = Checksum_passes
           \<and> (check_pkg_signature conf \<longrightarrow> signature_stage_passes env pkg)))
   \<and> (force_checksum conf \<longrightarrow>
        (fst (pkg_verify have_sha256 conf env pkg) = 0 \<longleftrightarrow>
           env_stat env (local_filename pkg) \<noteq> Stat_ENOENT))"
  using pkg_verify_starts_with_stat [of have_sha256 conf env pkg]
    pkg_verify_missing_file [of env pkg have_sha256 conf]
    pkg_verify_stages_sorted [of have_sha256 conf env pkg]
    pkg_verify_size_first [of have_sha256 conf env pkg]
    pkg_verify_checksum_choice [of env pkg have_sha256 conf m s]
    pkg_verify_signature_last [of have_sha256 conf env pkg]
    pkg_verify_signature_file [of f sig have_sha256 conf env pkg]
    pkg_verify_zero [of conf have_sha256 env pkg]
    pkg_verify_overridden [of conf have_sha256 env pkg]
  by blast

theorem pkg_verify_stage_order_witness:
  "size_stage_passes sample_env (sample_pkg\<lparr>md5sum := Some ''d41d''\<rparr>)
   \<and> checksum_stage True sample_env (sample_pkg\<lparr>md5sum := Some ''d41d''\<rparr>) = Checksum_passes
   \<and> signature_stage_passes sample_env (sample_pkg\<lparr>md5sum := Some ''d41d''\<rparr>)
   \<and> \<not> force_checksum (example_conf\<lparr>check_pkg_signature := True\<rparr>)
   \<and> fst (pkg_verify True (example_conf\<lparr>check_pkg_signature := True\<rparr>) sample_env
            (sample_pkg\<lparr>md5sum := Some ''d41d''\<rparr>)) = 0
   \<and> stages (snd (pkg_verify True (example_conf\<lparr>check_pkg_signature := True\<rparr>) sample_env
            (sample_pkg\<lparr>md5sum := Some ''d41d''\<rparr>))) = [1, 2, 3, 4]
   \<and> env_stat sample_env (local_filename (sample_pkg\<lparr>local_filename := Some ''/tmp/b.ipk''\<rparr>))
       = Stat_ENOENT
   \<and> pkg_verify True example_conf sample_env (sample_pkg\<lparr>local_filename := Some ''/tmp/b.ipk''\<rparr>)
       = (1, [Stat (Some ''/tmp/b.ipk'')])"
proof -
  have a: "size_stage_passes sample_env (sample_pkg\<lparr>md5sum := Some ''d41d''\<rparr>)"
    "checksum_stage True sample_env (sample_pkg\<lparr>md5sum := Some ''d41d''\<rparr>) = Checksum_passes"
    "signature_stage_passes sample_env (sample_pkg\<lparr>md5sum := Some ''d41d''\<rparr>)"
    "\<not> force_checksum (example_conf\<lparr>check_pkg_signature := True\<rparr>)"
    by (simp_all add: size_stage_passes_def checksum_stage_def signature_stage_passes_def
        sample_env_def sample_pkg_def pkg_init_def example_conf_def)
  have st: "stages (snd (pkg_verify True (example_conf\<lparr>check_pkg_signature := True\<rparr>) sample_env
            (sample_pkg\<lparr>md5sum := Some ''d41d''\<rparr>))) = [1, 2, 3, 4]"
    by (simp add: pkg_verify_defs sample_env_def sample_pkg_def pkg_init_def example_conf_def)
  have e: "env_stat sample_env (local_filename (sample_pkg\<lparr>local_filename := Some ''/tmp/b.ipk''\<rparr>))
       = Stat_ENOENT"
    "local_filename (sample_pkg\<lparr>local_filename := Some ''/tmp/b.ipk''\<rparr>) = Some ''/tmp/b.ipk''"
    by (simp_all add: sample_env_def)
  have "fst (pkg_verify True (example_conf\<lparr>check_pkg_signature := True\<rparr>) sample_env
            (sample_pkg\<lparr>md5sum := Some ''d41d''\<rparr>)) = 0"
    using pkg_verify_stage_order [of True "example_conf\<lparr>check_pkg_signature := True\<rparr>"
        sample_env "sample_pkg\<lparr>md5sum := Some ''d41d''\<rparr>"] a
    by blast
  moreover have "pkg_verify True example_conf sample_env
      (sample_pkg\<lparr>local_filename := Some ''/tmp/b.ipk''\<rparr>) = (1, [Stat (Some ''/tmp/b.ipk'')])"
    using pkg_verify_stage_order [of True example_conf sample_env
        "sample_pkg\<lparr>local_filename := Some ''/tmp/b.ipk''\<rparr>"] e
    by simp
  ultimately show ?thesis
    using a st e(1) by blast
qed

text \<open>
  Built without \<open>HAVE_SHA256\<close> (the default), a package whose sha256sum is known and
  correct is not verified against it and fails as a package without checksum.
\<close>

theorem pkg_verify_sha256_counterexample:
  "size_stage_passes sample_env (sample_pkg\<lparr>sha256sum := Some ''e3b0''\<rparr>)
   \<and> env_verify_sha256sum sample_env (Some ''/tmp/a.ipk'') ''e3b0'' = 0
   \<and> pkg_verify False example_conf sample_env (sample_pkg\<lparr>sha256sum := Some ''e3b0''\<rparr>)
       = (- 1, [Stat (Some ''/tmp/a.ipk''),
                Log ERROR (''Checksum is either missing or unsupported on opkg. ''
                  @ ''To bypass verification use --force-checksum. Aborting '' @ [CHR 0x0A])])"
  by (simp add: pkg_verify_defs checksum_missing_msg_def sample_env_def sample_pkg_def
      pkg_init_def example_conf_def)

text \<open>
  Claim C7, as the code has it.  With force-checksum set, \<open>pkg_verify\<close> deletes nothing and
  returns 0 whenever the file can be looked at.  Without it, a failure of the size check,
  of \<open>stat\<close> (other than a missing file), of a checksum or of the signature deletes the
  local file, and the signature file too when the signature was checked and the file is
  there; a missing checksum returns \<open>-1\<close> and deletes nothing.  Files are deleted only
  when the call fails.
\<close>

theorem pkg_verify_failure_cleanup:
  "(force_checksum conf \<longrightarrow>
      \<not> list_ex is_unlink (snd (pkg_verify have_sha256 conf env pkg))
      \<and> (env_stat env (local_filename pkg) \<noteq> Stat_ENOENT \<longrightarrow>
           fst (pkg_verify have_sha256 conf env pkg) = 0))
   \<and> (\<not> force_checksum conf \<and> fst (pkg_verify have_sha256 conf env pkg) \<noteq> 0
       \<and> env_stat env (local_filename pkg) \<noteq> Stat_ENOENT
       \<and> \<not> (size_stage_passes env pkg \<and> checksum_stage have_sha256 env pkg = Checksum_missing)
       \<longrightarrow>
         Unlink (local_filename pkg) \<in> set (snd (pkg_verify have_sha256 conf env pkg))
         \<and> (Verify_signature (local_filename pkg) s
               \<in> set (snd (pkg_verify have_sha256 conf env pkg))
             \<and> env_file_exists env s \<longrightarrow>
             Unlink (Some s) \<in> set (snd (pkg_verify have_sha256 conf env pkg))))
   \<and> (\<not> force_checksum conf \<and> size_stage_passes env pkg
       \<and> checksum_stage have_sha256 env pkg = Checksum_missing \<longrightarrow>
         fst (pkg_verify have_sha256 conf env pkg) = - 1
         \<and> \<not> list_ex is_unlink (snd (pkg_verify have_sha256 conf env pkg)))
   \<and> (list_ex is_unlink (snd (pkg_verify have_sha256 conf env pkg)) \<longrightarrow>
         fst (pkg_verify have_sha256 conf env pkg) \<noteq> 0)"
  using pkg_verify_forced [of conf have_sha256 env pkg]
    pkg_verify_removes [of conf have_sha256 env pkg s]
    pkg_verify_missing_checksum [of conf env pkg have_sha256]
    pkg_verify_unlink_only_on_failure [of have_sha256 conf env pkg]
  by blast

theorem pkg_verify_failure_cleanup_witness:
  "\<not> force_checksum example_conf
   \<and> env_stat sample_env (local_filename (sample_pkg\<lparr>size_field := 2048, md5sum := Some ''d41d''\<rparr>))
       \<noteq> Stat_ENOENT
   \<and> \<not> size_stage_passes sample_env (sample_pkg\<lparr>size_field := 2048, md5sum := Some ''d41d''\<rparr>)
   \<and> fst (pkg_verify True example_conf sample_env
            (sample_pkg\<lparr>size_field := 2048, md5sum := Some ''d41d''\<rparr>)) = - 1
   \<and> Unlink (Some ''/tmp/a.ipk'')
       \<in> set (snd (pkg_verify True example_conf sample_env
                 (sample_pkg\<lparr>size_field := 2048, md5sum := Some ''d41d''\<rparr>)))"
proof -
  have a: "\<not> force_checksum example_conf"
    "env_stat sample_env (local_filename (sample_pkg\<lparr>size_field := 2048, md5sum := Some ''d41d''\<rparr>))
       \<noteq> Stat_ENOENT"
    "\<not> size_stage_passes sample_env (sample_pkg\<lparr>size_field := 2048, md5sum := Some ''d41d''\<rparr>)"
    "local_filename (sample_pkg\<lparr>size_field := 2048, md5sum := Some ''d41d''\<rparr>) = Some ''/tmp/a.ipk''"
    by (simp_all add: size_stage_passes_def sample_env_def sample_pkg_def pkg_init_def
        example_conf_def)
  have r: "fst (pkg_verify True example_conf sample_env
            (sample_pkg\<lparr>size_field := 2048, md5sum := Some ''d41d''\<rparr>)) = - 1"
    by (simp add: pkg_verify_defs sample_env_def sample_pkg_def pkg_init_def example_conf_def)
  show ?thesis
    using pkg_verify_failure_cleanup [of example_conf True sample_env
        "sample_pkg\<lparr>size_field := 2048, md5sum := Some ''d41d''\<rparr>"] a r
    by simp
qed

text \<open>A package without any checksum fails without force-checksum, and its file stays.\<close>

theorem pkg_verify_missing_checksum_counterexample:
  "size_stage_passes sample_env sample_pkg
   \<and> checksum_stage True sample_env sample_pkg = Checksum_missing
   \<and> \<not> force_checksum example_conf
   \<and> pkg_verify True example_conf sample_env sample_pkg
       = (- 1, [Stat (Some ''/tmp/a.ipk''),
                Log ERROR (''Checksum is either missing or unsupported on opkg. ''
                  @ ''To bypass verification use --force-checksum. Aborting '' @ [CHR 0x0A])])
   \<and> \<not> list_ex is_unlink (snd (pkg_verify True example_conf sample_env sample_pkg))"
  by (simp add: pkg_verify_defs checksum_missing_msg_def is_unlink_def sample_env_def
      sample_pkg_def pkg_init_def example_conf_def)

section \<open>The merge rule\<close>

text \<open>A conditional assignment to a field is an assignment of a conditional value.\<close>

lemma if_update:
  fixes r r' :: pkg
  shows
  "(if c then r\<lparr>auto_installed := v0\<rparr> else r') = (if c then r else r')\<lparr>auto_installed := (if c then v0 else auto_installed r')\<rparr>"
  "(if c then r\<lparr>src := v1\<rparr> else r') = (if c then r else r')\<lparr>src := (if c then v1 else src r')\<rparr>"
  "(if c then r\<lparr>dest := v2\<rparr> else r') = (if c then r else r')\<lparr>dest := (if c then v2 else dest r')\<rparr>"
  "(if c then r\<lparr>architecture := v3\<rparr> else r') = (if c then r else r')\<lparr>architecture := (if c then v3 else architecture r')\<rparr>"
  "(if c then r\<lparr>arch_priority := v4\<rparr> else r') = (if c then r else r')\<lparr>arch_priority := (if c then v4 else arch_priority r')\<rparr>"
  "(if c then r\<lparr>section_field := v5\<rparr> else r') = (if c then r else r')\<lparr>section_field := (if c then v5 else section_field r')\<rparr>"
  "(if c then r\<lparr>maintainer := v6\<rparr> else r') = (if c then r else r')\<lparr>maintainer := (if c then v6 else maintainer r')\<rparr>"
  "(if c then r\<lparr>description := v7\<rparr> else r') = (if c then r else r')\<lparr>description := (if c then v7 else description r')\<rparr>"
  "(if c then r\<lparr>depends_count := v8\<rparr> else r') = (if c then r else r')\<lparr>depends_count := (if c then v8 else depends_count r')\<rparr>"
  "(if c then r\<lparr>depends := v9\<rparr> else r') = (if c then r else r')\<lparr>depends := (if c then v9 else depends r')\<rparr>"
  "(if c then r\<lparr>pre_depends_count := v10\<rparr> else r') = (if c then r else r')\<lparr>pre_depends_count := (if c then v10 else pre_depends_count r')\<rparr>"
  "(if c then r\<lparr>recommends_count := v11\<rparr> else r') = (if c then r else r')\<lparr>recommends_count := (if c then v11 else recommends_count r')\<rparr>"
  "(if c then r\<lparr>suggests_count := v12\<rparr> else r') = (if c then r else r')\<lparr>suggests_count := (if c then v12 else suggests_count r')\<rparr>"
  "(if c then r\<lparr>provides_count := v13\<rparr> else r') = (if c then r else r')\<lparr>provides_count := (if c then v13 else provides_count r')\<rparr>"
  "(if c then r\<lparr>provides := v14\<rparr> else r') = (if c then r else r')\<lparr>provides := (if c then v14 else provides r')\<rparr>"
  "(if c then r\<lparr>conflicts_count := v15\<rparr> else r') = (if c then r else r')\<lparr>conflicts_count := (if c then v15 else conflicts_count r')\<rparr>"
  "(if c then r\<lparr>conflicts := v16\<rparr> else r') = (if c then r else r')\<lparr>conflicts := (if c then v16 else conflicts r')\<rparr>"
  "(if c then r\<lparr>replaces_count := v17\<rparr> else r') = (if c then r else r')\<lparr>replaces_count := (if c then v17 else replaces_count r')\<rparr>"
  "(if c then r\<lparr>replaces := v18\<rparr> else r') = (if c then r else r')\<lparr>replaces := (if c then v18 else replaces r')\<rparr>"
  "(if c then r\<lparr>filename := v19\<rparr> else r') = (if c then r else r')\<lparr>filename := (if c then v19 else filename r')\<rparr>"
  "(if c then r\<lparr>local_filename := v20\<rparr> else r') = (if c then r else r')\<lparr>local_filename := (if c then v20 else local_filename r')\<rparr>"
  "(if c then r\<lparr>tmp_unpack_dir := v21\<rparr> else r') = (if c then r else r')\<lparr>tmp_unpack_dir := (if c then v21 else tmp_unpack_dir r')\<rparr>"
  "(if c then r\<lparr>md5sum := v22\<rparr> else r') = (if c then r else r')\<lparr>md5sum := (if c then v22 else md5sum r')\<rparr>"
  "(if c then r\<lparr>sha256sum := v23\<rparr> else r') = (if c then r else r')\<lparr>sha256sum := (if c then v23 else sha256sum r')\<rparr>"
  "(if c then r\<lparr>size_field := v24\<rparr> else r') = (if c then r else r')\<lparr>size_field := (if c then v24 else size_field r')\<rparr>"
  "(if c then r\<lparr>installed_size := v25\<rparr> else r') = (if c then r else r')\<lparr>installed_size := (if c then v25 else installed_size r')\<rparr>"
  "(if c then r\<lparr>priority := v26\<rparr> else r') = (if c then r else r')\<lparr>priority := (if c then v26 else priority r')\<rparr>"
  "(if c then r\<lparr>userfields := v27\<rparr> else r') = (if c then r else r')\<lparr>userfields := (if c then v27 else userfields r')\<rparr>"
  "(if c then r\<lparr>source := v28\<rparr> else r') = (if c then r else r')\<lparr>source := (if c then v28 else source r')\<rparr>"
  "(if c then r\<lparr>conffiles := v29\<rparr> else r') = (if c then r else r')\<lparr>conffiles := (if c then v29 else conffiles r')\<rparr>"
  "(if c then r\<lparr>installed_files := v30\<rparr> else r') = (if c then r else r')\<lparr>installed_files := (if c then v30 else installed_files r')\<rparr>"
  "(if c then r\<lparr>installed_files_ref_cnt := v31\<rparr> else r') = (if c then r else r')\<lparr>installed_files_ref_cnt := (if c then v31 else installed_files_ref_cnt r')\<rparr>"
  "(if c then r\<lparr>essential := v32\<rparr> else r') = (if c then r else r')\<lparr>essential := (if c then v32 else essential r')\<rparr>"
  by simp_all

lemma if_pair: "(if c then (x, y) else (x', y')) = (if c then x else x', if c then y else y')"
  by simp


lemma pkg_merge_body_scalars:
  "src (fst (pkg_merge_body conf old new)) = keep_ptr (src old) (src new)"
  "dest (fst (pkg_merge_body conf old new)) = keep_ptr (dest old) (dest new)"
  "architecture (fst (pkg_merge_body conf old new)) = keep_ptr (architecture old) (architecture new)"
  "section_field (fst (pkg_merge_body conf old new)) = keep_ptr (section_field old) (section_field new)"
  "maintainer (fst (pkg_merge_body conf old new)) = keep_ptr (maintainer old) (maintainer new)"
  "description (fst (pkg_merge_body conf old new)) = keep_ptr (description old) (description new)"
  "filename (fst (pkg_merge_body conf old new)) = keep_ptr (filename old) (filename new)"
  "local_filename (fst (pkg_merge_body conf old new)) = keep_ptr (local_filename old) (local_filename new)"
  "tmp_unpack_dir (fst (pkg_merge_body conf old new)) = keep_ptr (tmp_unpack_dir old) (tmp_unpack_dir new)"
  "md5sum (fst (pkg_merge_body conf old new)) = keep_ptr (md5sum old) (md5sum new)"
  "sha256sum (fst (pkg_merge_body conf old new)) = keep_ptr (sha256sum old) (sha256sum new)"
  "priority (fst (pkg_merge_body conf old new)) = keep_ptr (priority old) (priority new)"
  "source (fst (pkg_merge_body conf old new)) = keep_ptr (source old) (source new)"
  "auto_installed (fst (pkg_merge_body conf old new)) = keep_num (auto_installed old) (auto_installed new)"
  "arch_priority (fst (pkg_merge_body conf old new)) = keep_num (arch_priority old) (arch_priority new)"
  "size_field (fst (pkg_merge_body conf old new)) = keep_num (size_field old) (size_field new)"
  "installed_size (fst (pkg_merge_body conf old new)) = keep_num (installed_size old) (installed_size new)"
  "essential (fst (pkg_merge_body conf old new)) = keep_num (essential old) (essential new)"
  by (simp_all add: pkg_merge_body_def Let_def split_beta keep_ptr_def keep_num_def
      if_update if_pair split del: if_split cong: if_cong)

lemma pkg_merge_body_depends:
  "depends_count (fst (pkg_merge_body conf old new)) =
     (if depends_count old = 0 \<and> pre_depends_count old = 0
        \<and> recommends_count old = 0 \<and> suggests_count old = 0
      then depends_count new else depends_count old)"
  "depends (fst (pkg_merge_body conf old new)) =
     (if depends_count old = 0 \<and> pre_depends_count old = 0
        \<and> recommends_count old = 0 \<and> suggests_count old = 0
      then depends new else depends old)"
  "pre_depends_count (fst (pkg_merge_body conf old new)) =
     (if depends_count old = 0 \<and> pre_depends_count old = 0
        \<and> recommends_count old = 0 \<and> suggests_count old = 0
      then pre_depends_count new else pre_depends_count old)"
  "recommends_count (fst (pkg_merge_body conf old new)) =
     (if depends_count old = 0 \<and> pre_depends_count old = 0
        \<and> recommends_count old = 0 \<and> suggests_count old = 0
      then recommends_count new else recommends_count old)"
  "suggests_count (fst (pkg_merge_body conf old new)) =
     (if depends_count old = 0 \<and> pre_depends_count old = 0
        \<and> recommends_count old = 0 \<and> suggests_count old = 0
      then suggests_count new else suggests_count old)"
  "depends_count (snd (pkg_merge_body conf old new)) =
     (if depends_count old = 0 \<and> pre_depends_count old = 0
        \<and> recommends_count old = 0 \<and> suggests_count old = 0
      then 0 else depends_count new)"
  "depends (snd (pkg_merge_body conf old new)) =
     (if depends_count old = 0 \<and> pre_depends_count old = 0
        \<and> recommends_count old = 0 \<and> suggests_count old = 0
      then None else depends new)"
  "pre_depends_count (snd (pkg_merge_body conf old new)) =
     (if depends_count old = 0 \<and> pre_depends_count old = 0
        \<and> recommends_count old = 0 \<and> suggests_count old = 0
      then 0 else pre_depends_count new)"
  "recommends_count (snd (pkg_merge_body conf old new)) =
     (if depends_count old = 0 \<and> pre_depends_count old = 0
        \<and> recommends_count old = 0 \<and> suggests_count old = 0
      then 0 else recommends_count new)"
  "suggests_count (snd (pkg_merge_body conf old new)) =
     (if depends_count old = 0 \<and> pre_depends_count old = 0
        \<and> recommends_count old = 0 \<and> suggests_count old = 0
      then 0 else suggests_count new)"
  by (simp_all add: pkg_merge_body_def Let_def split_beta keep_ptr_def keep_num_def
      if_update if_pair split del: if_split cong: if_cong)

lemma pkg_merge_body_arrays:
  "provides_count (fst (pkg_merge_body conf old new)) = (if provides_count old \<le> 1 then provides_count new else provides_count old)"
  "provides_count (snd (pkg_merge_body conf old new)) = (if provides_count old \<le> 1 then 0 else provides_count new)"
  "provides (fst (pkg_merge_body conf old new)) = (if provides_count old \<le> 1 then provides new else provides old)"
  "provides (snd (pkg_merge_body conf old new)) = (if provides_count old \<le> 1 then None else provides new)"
  "conflicts_count (fst (pkg_merge_body conf old new)) = (if conflicts_count old = 0 then conflicts_count new else conflicts_count old)"
  "conflicts_count (snd (pkg_merge_body conf old new)) = (if conflicts_count old = 0 then 0 else conflicts_count new)"
  "conflicts (fst (pkg_merge_body conf old new)) = (if conflicts_count old = 0 then conflicts new else conflicts old)"
  "conflicts (snd (pkg_merge_body conf old new)) = (if conflicts_count old = 0 then None else conflicts new)"
  "replaces_count (fst (pkg_merge_body conf old new)) = (if replaces_count old = 0 then replaces_count new else replaces_count old)"
  "replaces_count (snd (pkg_merge_body conf old new)) = (if replaces_count old = 0 then 0 else replaces_count new)"
  "replaces (fst (pkg_merge_body conf old new)) = (if replaces_count old = 0 then replaces new else replaces old)"
  "replaces (snd (pkg_merge_body conf old new)) = (if replaces_count old = 0 then None else replaces new)"
  by (simp_all add: pkg_merge_body_def Let_def split_beta keep_ptr_def keep_num_def
      if_update if_pair split del: if_split cong: if_cong)

lemma pkg_merge_body_lists:
  "conffiles (fst (pkg_merge_body conf old new)) = (if conffiles old = [] then conffiles new else conffiles old)"
  "conffiles (snd (pkg_merge_body conf old new)) = (if conffiles old = [] then [] else conffiles new)"
  "userfields (fst (pkg_merge_body conf old new)) =
     (if verbose_status_file conf \<and> userfields old = [] then userfields new else userfields old)"
  "userfields (snd (pkg_merge_body conf old new)) =
     (if verbose_status_file conf \<and> userfields old = [] then [] else userfields new)"
  "installed_files (fst (pkg_merge_body conf old new)) = keep_ptr (installed_files old) (installed_files new)"
  "installed_files (snd (pkg_merge_body conf old new)) =
     (if installed_files old = None then None else installed_files new)"
  "installed_files_ref_cnt (fst (pkg_merge_body conf old new)) =
     (if installed_files old = None then installed_files_ref_cnt new else installed_files_ref_cnt old)"
  by (simp_all add: pkg_merge_body_def Let_def split_beta keep_ptr_def keep_num_def
      if_update if_pair split del: if_split cong: if_cong)

lemma pkg_merge_body_untouched:
  "name (fst (pkg_merge_body conf old new)) = name old"
  "epoch (fst (pkg_merge_body conf old new)) = epoch old"
  "version (fst (pkg_merge_body conf old new)) = version old"
  "revision (fst (pkg_merge_body conf old new)) = revision old"
  "force_reinstall (fst (pkg_merge_body conf old new)) = force_reinstall old"
  "tags (fst (pkg_merge_body conf old new)) = tags old"
  "state_want (fst (pkg_merge_body conf old new)) = state_want old"
  "state_flag (fst (pkg_merge_body conf old new)) = state_flag old"
  "state_status (fst (pkg_merge_body conf old new)) = state_status old"
  "installed_time (fst (pkg_merge_body conf old new)) = installed_time old"
  by (simp_all add: pkg_merge_body_def Let_def split_beta keep_ptr_def keep_num_def
      if_update if_pair split del: if_split cong: if_cong)

text \<open>
  Claim C5.  Merging \<open>newpkg\<close> into \<open>oldpkg\<close> keeps, for each of the scalar fields \<open>src\<close>, \<open>dest\<close>, \<open>architecture\<close>, \<open>section\<close>, \<open>maintainer\<close>, \<open>description\<close>,
  \<open>filename\<close>, \<open>local_filename\<close>, \<open>tmp_unpack_dir\<close>, \<open>md5sum\<close>, \<open>sha256sum\<close>, \<open>priority\<close>,
  \<open>source\<close>, \<open>auto_installed\<close>, \<open>arch_priority\<close>, \<open>size\<close>, \<open>installed_size\<close> and \<open>essential\<close>,
  the old value when it is not NULL or 0 and takes the new one otherwise.  The dependency
  array and its four counts stay iff the old counts sum to more than 0; provides stay iff
  the old record has more than the self-entry; conflicts and replaces stay iff their own
  count is not 0; conffiles stay iff not empty; userfields are taken from the new record
  only when \<open>verbose_status_file\<close> is set and the old list is empty; \<open>installed_files\<close> move
  from new to old only when old has none.  Name, epoch, version and revision stay, and
  merging an object into itself changes nothing.  The scalar field \<open>tags\<close> is the one the
  merge never reads: an old record without tags stays without them whatever the new
  record says, unlike the fields beside it and against the function's comment,
  ``Merge any new information in newpkg into oldpkg''.
\<close>

theorem pkg_merge_rule:
  assumes "pkg_merge_body conf old new = (old', new')"
  shows "src old' = keep_ptr (src old) (src new)
     \<and> dest old' = keep_ptr (dest old) (dest new)
     \<and> architecture old' = keep_ptr (architecture old) (architecture new)
     \<and> section_field old' = keep_ptr (section_field old) (section_field new)
     \<and> maintainer old' = keep_ptr (maintainer old) (maintainer new)
     \<and> description old' = keep_ptr (description old) (description new)
     \<and> filename old' = keep_ptr (filename old) (filename new)
     \<and> local_filename old' = keep_ptr (local_filename old) (local_filename new)
     \<and> tmp_unpack_dir old' = keep_ptr (tmp_unpack_dir old) (tmp_unpack_dir new)
     \<and> md5sum old' = keep_ptr (md5sum old) (md5sum new)
     \<and> sha256sum old' = keep_ptr (sha256sum old) (sha256sum new)
     \<and> priority old' = keep_ptr (priority old) (priority new)
     \<and> source old' = keep_ptr (source old) (source new)
     \<and> auto_installed old' = keep_num (auto_installed old) (auto_installed new)
     \<and> arch_priority old' = keep_num (arch_priority old) (arch_priority new)
     \<and> size_field old' = keep_num (size_field old) (size_field new)
     \<and> installed_size old' = keep_num (installed_size old) (installed_size new)
     \<and> essential old' = keep_num (essential old) (essential new)
     \<and> depends old' =
       (if 0 < depends_count old + pre_depends_count old + recommends_count old + suggests_count old
        then depends old else depends new)
     \<and> depends_count old' =
       (if 0 < depends_count old + pre_depends_count old + recommends_count old + suggests_count old
        then depends_count old else depends_count new)
     \<and> pre_depends_count old' =
       (if 0 < depends_count old + pre_depends_count old + recommends_count old + suggests_count old
        then pre_depends_count old else pre_depends_count new)
     \<and> recommends_count old' =
       (if 0 < depends_count old + pre_depends_count old + recommends_count old + suggests_count old
        then recommends_count old else recommends_count new)
     \<and> suggests_count old' =
       (if 0 < depends_count old + pre_depends_count old + recommends_count old + suggests_count old
        then suggests_count old else suggests_count new)
     \<and> provides old' = (if 1 < provides_count old then provides old else provides new)
     \<and> provides_count old' = (if 1 < provides_count old then provides_count old else provides_count new)
     \<and> conflicts old' = (if 0 < conflicts_count old then conflicts old else conflicts new)
     \<and> conflicts_count old' = (if 0 < conflicts_count old then conflicts_count old else conflicts_count new)
     \<and> replaces old' = (if 0 < replaces_count old then replaces old else replaces new)
     \<and> replaces_count old' = (if 0 < replaces_count old then replaces_count old else replaces_count new)
     \<and> conffiles old' = (if conffiles old \<noteq> [] then conffiles old else conffiles new)
     \<and> userfields old' =
       (if verbose_status_file conf \<and> userfields old = [] then userfields new
        else userfields old)
     \<and> installed_files old' = keep_ptr (installed_files old) (installed_files new)
     \<and> installed_files new' =
       (if installed_files old = None then None else installed_files new)
     \<and> name old' = name old
     \<and> epoch old' = epoch old
     \<and> version old' = version old
     \<and> revision old' = revision old
     \<and> tags old' = tags old
     \<and> pkg_merge conf store a a = (0, store)
     \<and> (a \<noteq> b \<and> store a = old \<and> store b = new \<longrightarrow>
       pkg_merge conf store a b = (0, store(a := old', b := new')))"
proof -
  have o: "fst (pkg_merge_body conf old new) = old'" and n: "snd (pkg_merge_body conf old new) = new'"
    using assms by simp_all
  note f = pkg_merge_body_scalars [of conf old new] pkg_merge_body_depends [of conf old new]
    pkg_merge_body_arrays [of conf old new] pkg_merge_body_lists [of conf old new]
    pkg_merge_body_untouched [of conf old new]
  note g = f [unfolded o n]
  have m1: "pkg_merge conf store a a = (0, store)"
    by (simp add: pkg_merge_def)
  have m2: "a \<noteq> b \<and> store a = old \<and> store b = new \<longrightarrow>
       pkg_merge conf store a b = (0, store(a := old', b := new'))"
    using assms by (auto simp: pkg_merge_def)
  show ?thesis
    using m1 m2 by (simp add: g)
qed

theorem pkg_merge_rule_witness:
  "maintainer (fst (pkg_merge_body example_conf (sample_store 0) (sample_store 1))) = Some ''old''
   \<and> section_field (fst (pkg_merge_body example_conf (sample_store 0) (sample_store 1))) = Some ''base''
   \<and> depends (fst (pkg_merge_body example_conf (sample_store 0) (sample_store 1))) = Some [''libc'']
   \<and> depends_count (fst (pkg_merge_body example_conf (sample_store 0) (sample_store 1))) = 1
   \<and> tags (sample_store 0) = None
   \<and> tags (sample_store 1) = Some ''core''
   \<and> tags (fst (pkg_merge_body example_conf (sample_store 0) (sample_store 1))) = None
   \<and> pkg_merge example_conf sample_store 0 0 = (0, sample_store)"
  using pkg_merge_rule [of example_conf "sample_store 0" "sample_store 1"
      "fst (pkg_merge_body example_conf (sample_store 0) (sample_store 1))"
      "snd (pkg_merge_body example_conf (sample_store 0) (sample_store 1))" sample_store 0 1]
  by (simp add: sample_store_def sample_pkg_def pkg_init_def keep_ptr_def keep_num_def)

text \<open>
  A record without tags merged with a record of the same package that has the tag
  \<open>core\<close>: the section, NULL in the old record as well, is taken from the new record, the
  tags are not.
\<close>

theorem pkg_merge_tags_counterexample:
  "name (sample_store 0) = name (sample_store 1)
   \<and> version (sample_store 0) = version (sample_store 1)
   \<and> revision (sample_store 0) = revision (sample_store 1)
   \<and> section_field (sample_store 0) = None \<and> tags (sample_store 0) = None
   \<and> section_field (sample_store 1) = Some ''base'' \<and> tags (sample_store 1) = Some ''core''
   \<and> section_field (fst (pkg_merge_body example_conf (sample_store 0) (sample_store 1)))
       = Some ''base''
   \<and> tags (fst (pkg_merge_body example_conf (sample_store 0) (sample_store 1))) = None"
  by (simp add: pkg_merge_body_untouched pkg_merge_body_scalars keep_ptr_def sample_store_def
      sample_pkg_def pkg_init_def)

end
